theory Spec2Isabelle
  imports Main "HOL-Library.Word"
begin

section \<open>Data model of Main.cpp\<close>

type_synonym byte = "8 word"

text \<open>\<^verbatim>\<open>struct SoundData\<close> (lines 21-26).\<close>

record SoundData =
  sd_buffer :: "byte list"
  sample_rate :: int
  channels :: int

text \<open>
  The two fields of \<^verbatim>\<open>AVPacket\<close> and \<^verbatim>\<open>AVFrame\<close> that the program or a claim looks at.
  A blank packet or frame (what \<^verbatim>\<open>av_packet_alloc\<close> and \<^verbatim>\<open>av_frame_alloc\<close> return) has
  index and sample count 0 and no data.
\<close>

record AVPacket =
  stream_index :: int
  pkt_data :: "byte list"

record AVFrame =
  nb_samples :: int
  extended_data :: "byte list"

definition av_packet_alloc :: AVPacket where
  "av_packet_alloc = \<lparr>stream_index = 0, pkt_data = []\<rparr>"

definition av_frame_alloc :: AVFrame where
  "av_frame_alloc = \<lparr>nb_samples = 0, extended_data = []\<rparr>"

text \<open>
  The two error codes the program compares with. Their macros live in the FFmpeg headers,
  which are not part of the repository; the values are those of \<^verbatim>\<open>libavutil/error.h\<close> on a
  POSIX system (\<^verbatim>\<open>AVERROR(e) = -e\<close>, \<^verbatim>\<open>EAGAIN = 11\<close>, \<^verbatim>\<open>AVERROR_EOF = -MKTAG('E','O','F',' ')\<close>).
  No proof below uses more than that they are negative and distinct.
\<close>

definition AVERROR_EAGAIN :: int where
  "AVERROR_EAGAIN = - 11"

definition AVERROR_EOF :: int where
  "AVERROR_EOF = - 541478725"

text \<open>
  How the process ends when it calls \<^verbatim>\<open>exit\<close>: \<open>ExitAv ret\<close> is \<^verbatim>\<open>format_av_error(int)\<close>
  (prints the text of \<^verbatim>\<open>av_strerror(ret)\<close>, exit status \<open>ret\<close>); \<open>ExitMsg m\<close> is
  \<^verbatim>\<open>format_av_error(void*, const char*)\<close> (prints \<open>m\<close>, exit status -1).
\<close>

datatype exit = ExitAv int | ExitMsg string

fun exit_status :: "exit \<Rightarrow> int" where
  "exit_status (ExitAv ret) = ret"
| "exit_status (ExitMsg m) = - 1"

text \<open>Lines 28-38. \<open>None\<close>: the call returns and the program goes on.\<close>

definition format_av_error :: "int \<Rightarrow> exit option" where
  "format_av_error ret =
     (if ret < 0 \<and> ret \<noteq> AVERROR_EAGAIN \<and> ret \<noteq> AVERROR_EOF then Some (ExitAv ret) else None)"

text \<open>Lines 40-47. A pointer is \<open>None\<close> when it is \<^verbatim>\<open>nullptr\<close>.\<close>

definition format_av_error_ptr :: "'a option \<Rightarrow> string \<Rightarrow> exit option" where
  "format_av_error_ptr pointer error_msg =
     (case pointer of None \<Rightarrow> Some (ExitMsg error_msg) | Some _ \<Rightarrow> None)"

section \<open>The libraries the decode pump calls\<close>

text \<open>
  FFmpeg is not part of the repository, so what its functions answer is a parameter of the
  model. Each function is given by its answer to the k-th call the pump makes
  (k = 0, 1, ...), which covers every deterministic behaviour of the library on a run:
  \<^item> \<open>av_read_frame k\<close>: the return value and the packet left in \<^verbatim>\<open>*packet\<close>;
  \<^item> \<open>avcodec_send_packet k p\<close>: the return value;
  \<^item> \<open>avcodec_receive_frame k\<close>: the return value and the frame left in \<^verbatim>\<open>*frame\<close>;
  \<^item> \<open>av_samples_alloc k n\<close> (one channel, \<open>n\<close> samples, S16, align 0): \<open>Inl e\<close> is a
    failure with code \<open>e\<close> that leaves \<^verbatim>\<open>pBufferData\<close> and \<^verbatim>\<open>line_size\<close> alone, \<open>Inr blk\<close> is
    a fresh block; for one interleaved plane the line size and the return value are the
    size of the block;
  \<^item> \<open>swr_convert k out_count f\<close>: the return value and the bytes it writes at the start
    of the output buffer.
\<close>

record ffmpeg =
  av_read_frame :: "nat \<Rightarrow> int \<times> AVPacket"
  avcodec_send_packet :: "nat \<Rightarrow> AVPacket \<Rightarrow> int"
  avcodec_receive_frame :: "nat \<Rightarrow> int \<times> AVFrame"
  av_samples_alloc :: "nat \<Rightarrow> int \<Rightarrow> int + byte list"
  swr_convert :: "nat \<Rightarrow> int \<Rightarrow> AVFrame \<Rightarrow> int \<times> byte list"

section \<open>The decode pump (\<^verbatim>\<open>FFMPEG_decode\<close>, lines 49-127)\<close>

text \<open>
  The locals of \<^verbatim>\<open>FFMPEG_decode\<close>, the heap of scratch blocks (\<^verbatim>\<open>pBufferData\<close> is an index
  into it, \<open>None\<close> for \<^verbatim>\<open>nullptr\<close>), the number of calls made so far to each library
  function, and four logs that the program does not keep and that only the theorems read:
  the packets passed to \<^verbatim>\<open>avcodec_send_packet\<close>, the frames \<^verbatim>\<open>avcodec_receive_frame\<close>
  returned with a non-negative result, the value of \<^verbatim>\<open>frame->nb_samples\<close> at each execution
  of line 97, and for each insert into \<^verbatim>\<open>buffer\<close> the number of the
  \<^verbatim>\<open>avcodec_receive_frame\<close> call that came last before it, with the bytes inserted.
\<close>

record pump =
  error_result :: int
  pBufferData :: "nat option"
  line_size :: int
  last_nb_samples :: int
  is_eof :: bool
  buffer :: "byte list"
  packet :: AVPacket
  frame :: AVFrame
  heap :: "byte list list"
  reads :: nat
  sends :: nat
  receives :: nat
  allocs :: nat
  converts :: nat
  sent :: "AVPacket list"
  received :: "AVFrame list"
  seen :: "int list"
  inserted :: "(nat \<times> byte list) list"

text \<open>Lines 51-59.\<close>

definition pump_init :: pump where
  "pump_init = \<lparr>error_result = 0, pBufferData = None, line_size = 0, last_nb_samples = 0,
     is_eof = False, buffer = [], packet = av_packet_alloc, frame = av_frame_alloc,
     heap = [], reads = 0, sends = 0, receives = 0, allocs = 0, converts = 0,
     sent = [], received = [], seen = [], inserted = []\<rparr>"

text \<open>The three library calls on packets and frames, with their bookkeeping.\<close>

definition do_read :: "ffmpeg \<Rightarrow> pump \<Rightarrow> pump" where
  "do_read env st =
     (let (r, p) = av_read_frame env (reads st)
      in st\<lparr>error_result := r, packet := p, reads := Suc (reads st)\<rparr>)"

definition do_send :: "ffmpeg \<Rightarrow> pump \<Rightarrow> pump" where
  "do_send env st =
     st\<lparr>error_result := avcodec_send_packet env (sends st) (packet st),
        sends := Suc (sends st), sent := sent st @ [packet st]\<rparr>"

definition do_receive :: "ffmpeg \<Rightarrow> pump \<Rightarrow> pump" where
  "do_receive env st =
     (let (r, f) = avcodec_receive_frame env (receives st)
      in st\<lparr>error_result := r, frame := f, receives := Suc (receives st),
            received := (if 0 \<le> r then received st @ [f] else received st)\<rparr>)"

text \<open>
  Lines 73-88, the body of \<^verbatim>\<open>if (error_result == AVERROR(EAGAIN))\<close>. The result is an exit,
  or the new state with \<open>True\<close> when the \<^verbatim>\<open>break\<close> of line 82 is taken.
\<close>

definition feed :: "ffmpeg \<Rightarrow> pump \<Rightarrow> exit + (bool \<times> pump)" where
  "feed env st =
     (if error_result st = AVERROR_EAGAIN then
        (let st1 = do_read env st in
         case format_av_error (error_result st1) of
           Some e \<Rightarrow> Inl e
         | None \<Rightarrow>
             if error_result st1 = AVERROR_EOF then Inr (True, st1\<lparr>is_eof := True\<rparr>)
             else
               (let st2 = do_send env st1 in
                case format_av_error (error_result st2) of
                  Some e \<Rightarrow> Inl e
                | None \<Rightarrow> Inr (False, st2)))
      else Inr (False, st))"

text \<open>
  Lines 71-92, the \<^verbatim>\<open>do ... while (error_result == AVERROR(EAGAIN))\<close> loop. It need not end,
  so it is a partial function: \<open>None\<close> is a loop that runs forever.
\<close>

partial_function (option) retry_loop :: "ffmpeg \<Rightarrow> pump \<Rightarrow> (exit + pump) option" where
  "retry_loop env st =
     (case feed env st of
        Inl e \<Rightarrow> Some (Inl e)
      | Inr (brk, st1) \<Rightarrow>
          if brk then Some (Inr st1)
          else
            (let st2 = do_receive env st1 in
             if error_result st2 = AVERROR_EAGAIN then retry_loop env st2
             else Some (Inr st2)))"

declare retry_loop.simps [code]

text \<open>
  Writing \<open>w\<close> at the start of a block keeps the size of the block and the bytes after
  \<open>w\<close> (what \<open>w\<close> has beyond the end of the block is left out).
\<close>

definition overwrite :: "byte list \<Rightarrow> byte list \<Rightarrow> byte list" where
  "overwrite w blk = take (length blk) (w @ drop (length w) blk)"

text \<open>
  Lines 99-106, the call of \<^verbatim>\<open>av_samples_alloc\<close>: the new block joins the heap and
  \<^verbatim>\<open>pBufferData\<close> is overwritten with its address; nothing is taken off the heap, the program
  having no call that frees a scratch block.
\<close>

definition do_alloc :: "ffmpeg \<Rightarrow> pump \<Rightarrow> pump" where
  "do_alloc env st =
     (case av_samples_alloc env (allocs st) (nb_samples (frame st)) of
        Inl e \<Rightarrow> st\<lparr>error_result := e, allocs := Suc (allocs st)\<rparr>
      | Inr blk \<Rightarrow>
          st\<lparr>error_result := int (length blk), pBufferData := Some (length (heap st)),
             line_size := int (length blk), heap := heap st @ [blk],
             allocs := Suc (allocs st)\<rparr>)"

text \<open>
  Lines 97-109. The sample count that line 97 compares is first noted in the log
  \<open>seen\<close>.
\<close>

definition alloc_if_changed :: "ffmpeg \<Rightarrow> pump \<Rightarrow> pump" where
  "alloc_if_changed env st =
     (let st0 = st\<lparr>seen := seen st @ [nb_samples (frame st)]\<rparr> in
      if nb_samples (frame st0) \<noteq> last_nb_samples st0
      then (do_alloc env st0)\<lparr>last_nb_samples := nb_samples (frame st0)\<rparr>
      else st0)"

text \<open>Lines 113-114. With \<^verbatim>\<open>pBufferData == nullptr\<close> there is no block to write to.\<close>

definition do_convert :: "ffmpeg \<Rightarrow> pump \<Rightarrow> pump" where
  "do_convert env st =
     (let (r, w) = swr_convert env (converts st) (nb_samples (frame st)) (frame st)
      in st\<lparr>error_result := r, converts := Suc (converts st),
            heap := (case pBufferData st of
                       None \<Rightarrow> heap st
                     | Some p \<Rightarrow> (heap st)[p := overwrite w (heap st ! p)])\<rparr>)"

text \<open>
  Line 123: the bytes \<^verbatim>\<open>[pBufferData, pBufferData + line_size)\<close>; from \<^verbatim>\<open>nullptr\<close> the range
  is empty (\<^verbatim>\<open>line_size\<close> is 0 as long as nothing was allocated).
\<close>

definition scratch :: "pump \<Rightarrow> byte list" where
  "scratch st =
     (case pBufferData st of None \<Rightarrow> [] | Some p \<Rightarrow> take (nat (line_size st)) (heap st ! p))"

definition do_insert :: "pump \<Rightarrow> pump" where
  "do_insert st =
     st\<lparr>buffer := buffer st @ scratch st,
        inserted := inserted st @ [(receives st - 1, scratch st)]\<rparr>"

text \<open>
  Lines 97-123, what one turn of the outer loop does with the frame. \<open>True\<close>: the
  \<^verbatim>\<open>break\<close> of line 119 is taken.
\<close>

definition resample :: "ffmpeg \<Rightarrow> pump \<Rightarrow> exit + (bool \<times> pump)" where
  "resample env st =
     (let st1 = alloc_if_changed env st in
      case format_av_error (error_result st1) of
        Some e \<Rightarrow> Inl e
      | None \<Rightarrow>
          (let st2 = do_convert env st1 in
           case format_av_error (error_result st2) of
             Some e \<Rightarrow> Inl e
           | None \<Rightarrow>
               if error_result st2 = AVERROR_EAGAIN \<or> error_result st2 = AVERROR_EOF
               then Inr (True, st2)
               else
                 (case (if error_result st2 < 0 then format_av_error (error_result st2)
                        else None) of
                    Some e \<Rightarrow> Inl e
                  | None \<Rightarrow> Inr (False, do_insert st2))))"

text \<open>Lines 69-124, the \<^verbatim>\<open>while (error_result >= 0 && !is_eof)\<close> loop.\<close>

partial_function (option) pump_loop :: "ffmpeg \<Rightarrow> pump \<Rightarrow> (exit + pump) option" where
  "pump_loop env st =
     (if 0 \<le> error_result st \<and> \<not> is_eof st then
        (case retry_loop env st of
           None \<Rightarrow> None
         | Some (Inl e) \<Rightarrow> Some (Inl e)
         | Some (Inr st1) \<Rightarrow>
             if is_eof st1 then Some (Inr st1)
             else
               (case resample env st1 of
                  Inl e \<Rightarrow> Some (Inl e)
                | Inr (brk, st2) \<Rightarrow> if brk then Some (Inr st2) else pump_loop env st2))
      else Some (Inr st))"

declare pump_loop.simps [code]

text \<open>
  Lines 61-67, then the loop. \<open>FFMPEG_decode_run\<close> gives the whole final state,
  \<open>FFMPEG_decode\<close> the vector the function returns.
\<close>

definition FFMPEG_decode_run :: "ffmpeg \<Rightarrow> (exit + pump) option" where
  "FFMPEG_decode_run env =
     (let st1 = do_read env pump_init in
      case format_av_error (error_result st1) of
        Some e \<Rightarrow> Some (Inl e)
      | None \<Rightarrow>
          (let st2 = do_send env st1 in
           case format_av_error (error_result st2) of
             Some e \<Rightarrow> Some (Inl e)
           | None \<Rightarrow> pump_loop env (st2\<lparr>error_result := 0\<rparr>)))"

definition FFMPEG_decode :: "ffmpeg \<Rightarrow> (exit + byte list) option" where
  "FFMPEG_decode env = map_option (map_sum id buffer) (FFMPEG_decode_run env)"

section \<open>The byte source (\<^verbatim>\<open>SeekCallback\<close>, lines 139-148)\<close>

text \<open>
  The \<^verbatim>\<open>FILE*\<close> behind the callbacks: the bytes of a regular file, whose size is therefore
  known, and the read position.
\<close>

record stdio_file =
  contents :: "byte list"
  fpos :: nat

definition file_size :: "stdio_file \<Rightarrow> int" where
  "file_size f = int (length (contents f))"

text \<open>
  \<^verbatim>\<open>fseek\<close> of the C library on such a file, for the origins \<^verbatim>\<open>SEEK_SET = 0\<close>,
  \<^verbatim>\<open>SEEK_CUR = 1\<close> and \<^verbatim>\<open>SEEK_END = 2\<close>: 0 and the new position, or -1 and no move when
  the origin is another one or the target is negative or beyond \<^verbatim>\<open>LONG_MAX\<close>.
\<close>

definition LONG_MAX :: int where
  "LONG_MAX = 2 ^ 63 - 1"

definition fseek :: "stdio_file \<Rightarrow> int \<Rightarrow> int \<Rightarrow> int \<times> stdio_file" where
  "fseek f offset origin =
     (let base = (if origin = 0 then Some 0
                  else if origin = 1 then Some (int (fpos f))
                  else if origin = 2 then Some (file_size f) else None)
      in case base of
           None \<Rightarrow> (- 1, f)
         | Some b \<Rightarrow>
             if b + offset < 0 \<or> LONG_MAX < b + offset then (- 1, f)
             else (0, f\<lparr>fpos := nat (b + offset)\<rparr>))"

text \<open>
  Lines 139-148, with the library's \<^verbatim>\<open>fseek\<close> as a parameter. \<^verbatim>\<open>0x10000\<close> is FFmpeg's
  \<^verbatim>\<open>AVSEEK_SIZE\<close>, the origin that asks for the size of the source. (\<^verbatim>\<open>long\<close> is taken to
  hold every offset, as it does where it has 64 bits.)
\<close>

definition SeekCallback ::
  "(stdio_file \<Rightarrow> int \<Rightarrow> int \<Rightarrow> int \<times> stdio_file) \<Rightarrow> stdio_file \<Rightarrow> int \<Rightarrow> int \<Rightarrow> int \<times> stdio_file" where
  "SeekCallback seek f offset origin =
     (if origin = 0x10000 then (- 1, f) else seek f offset origin)"

section \<open>The setup routine (\<^verbatim>\<open>read_audio_into_buffer\<close>, lines 150-253)\<close>

datatype AVMediaType =
  AVMEDIA_TYPE_UNKNOWN | AVMEDIA_TYPE_VIDEO | AVMEDIA_TYPE_AUDIO | AVMEDIA_TYPE_DATA
| AVMEDIA_TYPE_SUBTITLE | AVMEDIA_TYPE_ATTACHMENT

record AVCodecParameters =
  codec_type :: AVMediaType
  codec_id :: nat
  cp_sample_rate :: int
  cp_channels :: int

text \<open>
  What the library answers to the calls of the setup routine: a pointer is \<open>None\<close> for
  \<^verbatim>\<open>nullptr\<close>, \<open>streams\<close> is the \<^verbatim>\<open>codecpar\<close> of each stream of the container (FFmpeg
  allocates one for every stream), the other fields are return values.
\<close>

record libav =
  avio_alloc_context :: "unit option"
  avformat_open_input :: int
  avformat_find_stream_info :: int
  streams :: "AVCodecParameters list"
  avcodec_find_decoder :: "nat \<Rightarrow> unit option"
  avcodec_alloc_context3 :: "unit option"
  avcodec_parameters_to_context :: int
  avcodec_open2 :: int
  swr_alloc_set_opts :: "unit option"
  swr_init :: int

text \<open>Lines 185-196: the index of the first audio stream from \<open>i\<close> on, or -1.\<close>

fun find_audio_stream :: "AVCodecParameters list \<Rightarrow> nat \<Rightarrow> int" where
  "find_audio_stream [] i = - 1"
| "find_audio_stream (s # ss) i =
     (if codec_type s = AVMEDIA_TYPE_AUDIO then int i else find_audio_stream ss (Suc i))"

text \<open>A call of \<^verbatim>\<open>format_av_error\<close> followed by the rest of the function.\<close>

definition checked :: "exit option \<Rightarrow> (exit + 'a) option \<Rightarrow> (exit + 'a) option" where
  "checked c rest = (case c of Some e \<Rightarrow> Some (Inl e) | None \<Rightarrow> rest)"

text \<open>
  The routine with \<^verbatim>\<open>FROM_MEMORY\<close> and \<^verbatim>\<open>RESAMPLE_TO_MONO\<close> defined, as in lines 18-19. The
  return values of \<^verbatim>\<open>avcodec_parameters_to_context\<close> (line 212) and \<^verbatim>\<open>swr_init\<close> (line 228)
  are dropped by the program, so the model does not read them. The teardown of lines
  242-250 has no effect on the result.
\<close>

definition read_audio_into_buffer :: "libav \<Rightarrow> ffmpeg \<Rightarrow> (exit + SoundData) option" where
  "read_audio_into_buffer lib env =
     checked (format_av_error_ptr (avio_alloc_context lib) ''Cannot allocate FFMPEG I/O context!'')
    (checked (format_av_error (avformat_open_input lib))
    (checked (format_av_error (avformat_find_stream_info lib))
    (let video_stream_idx = find_audio_stream (streams lib) 0 in
     checked (if video_stream_idx = - 1
              then format_av_error_ptr (None :: unit option) ''FFMPEG could not find any audio stream!''
              else None)
    (let pCodecParams = streams lib ! nat video_stream_idx in
     checked (format_av_error_ptr (Some pCodecParams) ''FFMPEG could not find audio stream!'')
    (checked (format_av_error_ptr (avcodec_find_decoder lib (codec_id pCodecParams))
                ''FFMPEG could not find target audio codec!'')
    (checked (format_av_error_ptr (avcodec_alloc_context3 lib)
                ''FFMPEG could not alloc target audio codec!'')
    (checked (format_av_error (avcodec_open2 lib))
    (checked (format_av_error_ptr (swr_alloc_set_opts lib)
                ''Something went wrong with FFMPEG allocating audio resample context!'')
    (case FFMPEG_decode env of
       None \<Rightarrow> None
     | Some (Inl e) \<Rightarrow> Some (Inl e)
     | Some (Inr b) \<Rightarrow>
         Some (Inr \<lparr>sd_buffer = b, sample_rate = cp_sample_rate pCodecParams,
                     channels = 1\<rparr>))))))))))"

section \<open>Notions of the claims\<close>


text \<open>
  The target format of the build (lines 17-18): \<^verbatim>\<open>AV_SAMPLE_FMT_S16\<close> has two bytes for each
  sample, and \<^verbatim>\<open>RESAMPLE_TO_MONO\<close> asks for one channel.
\<close>

definition target_sample_width :: nat where
  "target_sample_width = 2"

definition target_channels :: nat where
  "target_channels = 1"

text \<open>
  The scratch pointer and \<^verbatim>\<open>line_size\<close> agree with the heap: no block and size 0, or a
  block of the heap that has \<^verbatim>\<open>line_size\<close> bytes.
\<close>

definition scratch_ok :: "pump \<Rightarrow> bool" where
  "scratch_ok st =
     (case pBufferData st of
        None \<Rightarrow> line_size st = 0
      | Some p \<Rightarrow> p < length (heap st) \<and> int (length (heap st ! p)) = line_size st)"

text \<open>
  What \<^verbatim>\<open>av_samples_alloc\<close> computes for the call of lines 99-106, by FFmpeg's
  \<^verbatim>\<open>libavutil/samplefmt.c\<close> (which is not part of the repository): with \<^verbatim>\<open>align = 0\<close> the
  sample count is first rounded up to a multiple of 32 (\<^verbatim>\<open>FFALIGN(nb_samples, 32)\<close>), so the
  line size of one channel of S16 is 2 bytes times the rounded count; a count that is
  not positive is refused. An allocator of this kind gives a block of that size, or
  fails for good.
\<close>

definition FFALIGN32 :: "int \<Rightarrow> int" where
  "FFALIGN32 n = (n + 31) div 32 * 32"

definition padded_line_size :: "int \<Rightarrow> int" where
  "padded_line_size n = int (target_sample_width * target_channels) * FFALIGN32 n"

definition padded_allocator :: "ffmpeg \<Rightarrow> bool" where
  "padded_allocator env =
     (\<forall>k n. case av_samples_alloc env k n of
              Inl e \<Rightarrow> e < 0 \<and> e \<noteq> AVERROR_EAGAIN \<and> e \<noteq> AVERROR_EOF
            | Inr blk \<Rightarrow> 0 < n \<and> int (length blk) = padded_line_size n)"

text \<open>
  A run of the libraries on a well-formed input with \<open>K\<close> packets, given by what the
  libraries answer:
  \<^item> the reader gives a packet at the calls 0 to \<open>K - 1\<close> and reports the end of the
    container at call \<open>K\<close>, and there is at least one packet;
  \<^item> the decoder takes every packet;
  \<^item> the decoder answers each call before call \<open>R\<close> with a frame that has samples or
    with \<^verbatim>\<open>EAGAIN\<close>, and call \<open>R\<close> is its \<open>K\<close>-th \<^verbatim>\<open>EAGAIN\<close>: the one at which the pump finds
    the container at its end;
  \<^item> the resampler takes every frame that has samples.

  \<open>waits env j n\<close> is the number of \<^verbatim>\<open>EAGAIN\<close> answers of the decoder at the calls \<open>j\<close>
  to \<open>n - 1\<close>, \<open>frames env j n\<close> the frames it delivers at those calls, in order.
\<close>

definition waits :: "ffmpeg \<Rightarrow> nat \<Rightarrow> nat \<Rightarrow> nat" where
  "waits env j n =
     length (filter (\<lambda>i. fst (avcodec_receive_frame env i) = AVERROR_EAGAIN) [j..<n])"

definition frames :: "ffmpeg \<Rightarrow> nat \<Rightarrow> nat \<Rightarrow> AVFrame list" where
  "frames env j n =
     map (\<lambda>i. snd (avcodec_receive_frame env i))
       (filter (\<lambda>i. 0 \<le> fst (avcodec_receive_frame env i)) [j..<n])"

definition decodes :: "ffmpeg \<Rightarrow> nat \<Rightarrow> nat \<Rightarrow> bool" where
  "decodes env K R \<longleftrightarrow>
     1 \<le> K \<and> (\<forall>k<K. 0 \<le> fst (av_read_frame env k)) \<and>
     fst (av_read_frame env K) = AVERROR_EOF \<and>
     (\<forall>k p. format_av_error (avcodec_send_packet env k p) = None) \<and>
     (\<forall>j<R. 0 \<le> fst (avcodec_receive_frame env j) \<and>
               0 < nb_samples (snd (avcodec_receive_frame env j)) \<or>
             fst (avcodec_receive_frame env j) = AVERROR_EAGAIN) \<and>
     fst (avcodec_receive_frame env R) = AVERROR_EAGAIN \<and>
     waits env 0 (Suc R) = K \<and>
     (\<forall>k n f. 0 < n \<longrightarrow> 0 \<le> fst (swr_convert env k n f))"

text \<open>The allocator has a block for every positive sample count.\<close>

definition allocates :: "ffmpeg \<Rightarrow> bool" where
  "allocates env = (\<forall>k n. 0 < n \<longrightarrow> (\<exists>blk. av_samples_alloc env k n = Inr blk))"

text \<open>
  What the pump appends for a list of frames, one chunk for each frame, written from
  lines 97-123 without the loop: \<open>i\<close> and \<open>a\<close> count the calls of the resampler and of
  the allocator so far, \<open>prev\<close> is the sample count of the frame before and \<open>cur\<close> the
  content of the scratch block. A frame with another sample count gets a fresh block,
  a frame with the same count the block as the frame before left it; the resampler
  writes at the start of the block, and the chunk is the whole block. (Where the
  allocator fails the pump exits, and the list ends.)
\<close>

fun chunks :: "ffmpeg \<Rightarrow> nat \<Rightarrow> nat \<Rightarrow> int \<Rightarrow> byte list \<Rightarrow> AVFrame list \<Rightarrow> byte list list" where
  "chunks env i a prev cur [] = []"
| "chunks env i a prev cur (f # fs) =
     (let w = snd (swr_convert env i (nb_samples f) f) in
      if nb_samples f \<noteq> prev then
        (case av_samples_alloc env a (nb_samples f) of
           Inl e \<Rightarrow> []
         | Inr blk \<Rightarrow>
             overwrite w blk # chunks env (Suc i) (Suc a) (nb_samples f) (overwrite w blk) fs)
      else overwrite w cur # chunks env (Suc i) a prev (overwrite w cur) fs)"

text \<open>
  The bytes the resampler writes for a list of frames, \<open>i\<close> being the number of its
  calls so far: the PCM data of the stream, frame by frame.
\<close>

fun converted :: "ffmpeg \<Rightarrow> nat \<Rightarrow> AVFrame list \<Rightarrow> byte list list" where
  "converted env i [] = []"
| "converted env i (f # fs) =
     snd (swr_convert env i (nb_samples f) f) # converted env (Suc i) fs"

section \<open>Concrete inputs\<close>

text \<open>
  A container with a video stream and an audio stream, and a run of the libraries on it:
  two packets (the first of the video stream 0, the second of the audio stream 1), then
  the end of the container; the decoder gives two frames of 2 samples for the first
  packet and one frame of 1 sample for the second; the allocator gives 2 bytes for each
  sample and refuses an empty buffer with \<^verbatim>\<open>AVERROR(EINVAL) = -22\<close>; the k-th conversion
  fills the buffer with the byte k + 1.
\<close>

definition ex_lib :: libav where
  "ex_lib = \<lparr>avio_alloc_context = Some (), avformat_open_input = 0,
     avformat_find_stream_info = 0,
     streams = [\<lparr>codec_type = AVMEDIA_TYPE_VIDEO, codec_id = 27, cp_sample_rate = 0,
                  cp_channels = 0\<rparr>,
                \<lparr>codec_type = AVMEDIA_TYPE_AUDIO, codec_id = 86021, cp_sample_rate = 48000,
                  cp_channels = 2\<rparr>],
     avcodec_find_decoder = (\<lambda>c. Some ()), avcodec_alloc_context3 = Some (),
     avcodec_parameters_to_context = 0, avcodec_open2 = 0, swr_alloc_set_opts = Some (),
     swr_init = 0\<rparr>"

definition ex_env :: ffmpeg where
  "ex_env = \<lparr>
     av_read_frame = (\<lambda>k. if k = 0 then (0, \<lparr>stream_index = 0, pkt_data = [1]\<rparr>)
                          else if k = 1 then (0, \<lparr>stream_index = 1, pkt_data = [2]\<rparr>)
                          else (AVERROR_EOF, av_packet_alloc)),
     avcodec_send_packet = (\<lambda>k p. 0),
     avcodec_receive_frame = (\<lambda>k. if k = 0 \<or> k = 1 then (0, \<lparr>nb_samples = 2, extended_data = []\<rparr>)
                                  else if k = 3 then (0, \<lparr>nb_samples = 1, extended_data = []\<rparr>)
                                  else (AVERROR_EAGAIN, av_frame_alloc)),
     av_samples_alloc = (\<lambda>k n. if n \<le> 0 then Inl (- 22) else Inr (replicate (2 * nat n) 0)),
     swr_convert = (\<lambda>k n f. (if n < 0 then - 22 else n, replicate (2 * nat n) (of_nat (Suc k))))\<rparr>"

text \<open>A container with no audio stream.\<close>

definition ex_lib_no_audio :: libav where
  "ex_lib_no_audio = ex_lib\<lparr>streams :=
     [\<lparr>codec_type = AVMEDIA_TYPE_VIDEO, codec_id = 27, cp_sample_rate = 0, cp_channels = 0\<rparr>,
      \<lparr>codec_type = AVMEDIA_TYPE_SUBTITLE, codec_id = 94213, cp_sample_rate = 0,
        cp_channels = 0\<rparr>]\<rparr>"

text \<open>The same packets with a decoder that only ever asks for more input.\<close>

definition ex_starved :: ffmpeg where
  "ex_starved = ex_env\<lparr>avcodec_receive_frame := (\<lambda>k. (AVERROR_EAGAIN, av_frame_alloc))\<rparr>"

text \<open>A regular file of three bytes, read up to the second.\<close>

definition ex_file :: stdio_file where
  "ex_file = \<lparr>contents = [1, 2, 3], fpos = 1\<rparr>"

text \<open>The state in which the pump returns on \<open>ex_env\<close>.\<close>

definition ex_final :: pump where
  "ex_final = \<lparr>error_result = AVERROR_EOF, pBufferData = Some 1, line_size = 2,
     last_nb_samples = 1, is_eof = True, buffer = [1, 1, 1, 1, 2, 2, 2, 2, 3, 3],
     packet = av_packet_alloc, frame = av_frame_alloc, heap = [[2, 2, 2, 2], [3, 3]],
     reads = 3, sends = 2, receives = 5, allocs = 2, converts = 3,
     sent = [\<lparr>stream_index = 0, pkt_data = [1]\<rparr>, \<lparr>stream_index = 1, pkt_data = [2]\<rparr>],
     received = [\<lparr>nb_samples = 2, extended_data = []\<rparr>, \<lparr>nb_samples = 2, extended_data = []\<rparr>,
                 \<lparr>nb_samples = 1, extended_data = []\<rparr>],
     seen = [2, 2, 1],
     inserted = [(0, [1, 1, 1, 1]), (1, [2, 2, 2, 2]), (3, [3, 3])]\<rparr>"


text \<open>
  The setup of \<open>ex_lib\<close> when the resampler rejects the parameters of the stream:
  \<^verbatim>\<open>swr_init\<close> returns \<^verbatim>\<open>AVERROR(EINVAL) = -22\<close>.
\<close>

definition ex_lib_swr_init_fails :: libav where
  "ex_lib_swr_init_fails = ex_lib\<lparr>swr_init := - 22\<rparr>"

text \<open>
  The first turn of the loop on \<open>ex_env\<close>: the state at line 97, with the first frame
  received, and the state after line 123. Then the same turn with a resampler that
  reports 1 sample where the frame has 2.
\<close>

definition ex_first_frame :: pump where
  "ex_first_frame =
     do_receive ex_env ((do_send ex_env (do_read ex_env pump_init))\<lparr>error_result := 0\<rparr>)"

definition ex_first_insert :: pump where
  "ex_first_insert = do_insert (do_convert ex_env (alloc_if_changed ex_env ex_first_frame))"

definition ex_short_convert :: "nat \<Rightarrow> int \<Rightarrow> AVFrame \<Rightarrow> int \<times> byte list" where
  "ex_short_convert k n f = (1, [9, 9])"

definition ex_short_insert :: pump where
  "ex_short_insert =
     do_insert (do_convert (ex_env\<lparr>swr_convert := ex_short_convert\<rparr>)
       (alloc_if_changed ex_env ex_first_frame))"

text \<open>
  The state in which the loop is entered on \<open>ex_starved\<close>, and the state in which its
  retry loop is left.
\<close>

definition ex_starved_start :: pump where
  "ex_starved_start = (do_send ex_starved (do_read ex_starved pump_init))\<lparr>error_result := 0\<rparr>"

definition ex_starved_final :: pump where
  "ex_starved_final = \<lparr>error_result = AVERROR_EOF, pBufferData = None, line_size = 0,
     last_nb_samples = 0, is_eof = True, buffer = [], packet = av_packet_alloc,
     frame = av_frame_alloc, heap = [], reads = 3, sends = 2, receives = 2, allocs = 0,
     converts = 0,
     sent = [\<lparr>stream_index = 0, pkt_data = [1]\<rparr>, \<lparr>stream_index = 1, pkt_data = [2]\<rparr>],
     received = [], seen = [], inserted = []\<rparr>"

text \<open>
  The run \<open>ex_env\<close> with the allocator of \<^verbatim>\<open>align = 0\<close>: 64 bytes for a frame of 1 or 2
  samples. Its first turn of the loop: the state at line 97 and the state after line 123.
\<close>

definition ex_padded :: ffmpeg where
  "ex_padded = ex_env\<lparr>av_samples_alloc :=
     (\<lambda>k n. if n \<le> 0 then Inl (- 22) else Inr (replicate (nat (padded_line_size n)) 0))\<rparr>"

definition ex_padded_first_frame :: pump where
  "ex_padded_first_frame =
     do_receive ex_padded ((do_send ex_padded (do_read ex_padded pump_init))\<lparr>error_result := 0\<rparr>)"

definition ex_padded_first_insert :: pump where
  "ex_padded_first_insert =
     do_insert (do_convert ex_padded (alloc_if_changed ex_padded ex_padded_first_frame))"

text \<open>
  The run \<open>ex_env\<close> with a resampler that puts out no sample at its second call (it
  returns 0 and writes nothing).
\<close>

definition ex_dup :: ffmpeg where
  "ex_dup = ex_env\<lparr>swr_convert :=
     (\<lambda>k n f. if k = 1 then (0, []) else swr_convert ex_env k n f)\<rparr>"

section \<open>Reasoning about the two loops\<close>

text \<open>
  Both loops are partial functions, so what holds of a run that returns is proved by
  induction on the computation. The two rules below do it once: from facts about one
  pass through the body they give the fact about the state a loop returns.
\<close>

lemma retry_loop_rule:
  assumes run: "retry_loop env st = Some (Inr st')"
    and init: "I st"
    and feed_go: "\<And>s s'. I s \<Longrightarrow> feed env s = Inr (False, s') \<Longrightarrow> M s'"
    and feed_brk: "\<And>s s'. I s \<Longrightarrow> feed env s = Inr (True, s') \<Longrightarrow> B s'"
    and recv_again: "\<And>s. M s \<Longrightarrow> error_result (do_receive env s) = AVERROR_EAGAIN \<Longrightarrow> I (do_receive env s)"
    and recv_done: "\<And>s. M s \<Longrightarrow> error_result (do_receive env s) \<noteq> AVERROR_EAGAIN \<Longrightarrow> R (do_receive env s)"
  shows "B st' \<or> R st'"
proof -
  have "retry_loop e s = Some r \<Longrightarrow>
        e = env \<longrightarrow> I s \<longrightarrow> (\<forall>s'. r = Inr s' \<longrightarrow> B s' \<or> R s')" for e s r
  proof (rule retry_loop.raw_induct
      [where P = "\<lambda>e s r. e = env \<longrightarrow> I s \<longrightarrow> (\<forall>s'. r = Inr s' \<longrightarrow> B s' \<or> R s')"],
      goal_cases)
    case 2
    then show ?case .
  next
    case (1 loop e s r)
    show ?case
    proof (intro impI allI)
      fix s' assume e: "e = env" and i: "I s" and r: "r = Inr s'"
      note body = 1(3)[unfolded e r]
      show "B s' \<or> R s'"
      proof (cases "feed env s")
        case (Inl x)
        with body show ?thesis by simp
      next
        case (Inr bs)
        obtain b s1 where bs: "bs = (b, s1)" by (cases bs)
        show ?thesis
        proof (cases b)
          case True
          with body Inr bs feed_brk[OF i] show ?thesis by auto
        next
          case False
          with Inr bs feed_go[OF i] have m: "M s1" by simp
          show ?thesis
          proof (cases "error_result (do_receive env s1) = AVERROR_EAGAIN")
            case again: True
            with body Inr bs False have "loop env (do_receive env s1) = Some (Inr s')"
              by (simp add: Let_def)
            from 1(2)[OF this] recv_again[OF m again] show ?thesis by simp
          next
            case fin: False
            with body Inr bs False have "s' = do_receive env s1"
              by (simp add: Let_def)
            with recv_done[OF m fin] show ?thesis by simp
          qed
        qed
      qed
    qed
  qed
  with run init show ?thesis by blast
qed

lemma pump_loop_rule:
  assumes run: "pump_loop env st = Some (Inr st')"
    and init: "I st"
    and retry: "\<And>s s'. I s \<Longrightarrow> 0 \<le> error_result s \<Longrightarrow> \<not> is_eof s \<Longrightarrow>
                 retry_loop env s = Some (Inr s') \<Longrightarrow> (if is_eof s' then F s' else M s')"
    and resample_go: "\<And>s s'. M s \<Longrightarrow> \<not> is_eof s \<Longrightarrow> resample env s = Inr (False, s') \<Longrightarrow> I s'"
    and resample_brk: "\<And>s s'. M s \<Longrightarrow> \<not> is_eof s \<Longrightarrow> resample env s = Inr (True, s') \<Longrightarrow> F s'"
    and stop: "\<And>s. I s \<Longrightarrow> \<not> (0 \<le> error_result s \<and> \<not> is_eof s) \<Longrightarrow> F s"
  shows "F st'"
proof -
  have "pump_loop e s = Some r \<Longrightarrow>
        e = env \<longrightarrow> I s \<longrightarrow> (\<forall>s'. r = Inr s' \<longrightarrow> F s')" for e s r
  proof (rule pump_loop.raw_induct
      [where P = "\<lambda>e s r. e = env \<longrightarrow> I s \<longrightarrow> (\<forall>s'. r = Inr s' \<longrightarrow> F s')"],
      goal_cases)
    case 2
    then show ?case .
  next
    case (1 loop e s r)
    show ?case
    proof (intro impI allI)
      fix s' assume e: "e = env" and i: "I s" and r: "r = Inr s'"
      note body = 1(3)[unfolded e r]
      show "F s'"
      proof (cases "0 \<le> error_result s \<and> \<not> is_eof s")
        case False
        with body have "s' = s" by auto
        with stop[OF i False] show ?thesis by simp
      next
        case True
        then have c: "0 \<le> error_result s" "\<not> is_eof s" by simp_all
        from body True obtain s1 where s1: "retry_loop env s = Some (Inr s1)"
          by (auto split: option.splits sum.splits)
        note post = retry[OF i c s1]
        show ?thesis
        proof (cases "is_eof s1")
          case True
          with body c s1 have "s' = s1" by auto
          with post True show ?thesis by simp
        next
          case False
          with post have m: "M s1" by simp
          from body c s1 False obtain b s2 where s2: "resample env s1 = Inr (b, s2)"
            by (auto split: sum.splits)
          show ?thesis
          proof (cases b)
            case True
            with body c s1 False s2 have "s' = s2" by auto
            with resample_brk[OF m False] s2 True show ?thesis by simp
          next
            case nb: False
            with body c s1 False s2 have "loop env s2 = Some (Inr s')" by simp
            from 1(2)[OF this] resample_go[OF m False] s2 nb show ?thesis by simp
          qed
        qed
      qed
    qed
  qed
  with run init show ?thesis by blast
qed

section \<open>What each step leaves alone\<close>

lemma do_read_fields [simp]:
  "pBufferData (do_read env st) = pBufferData st"
  "line_size (do_read env st) = line_size st"
  "last_nb_samples (do_read env st) = last_nb_samples st"
  "is_eof (do_read env st) = is_eof st"
  "buffer (do_read env st) = buffer st"
  "frame (do_read env st) = frame st"
  "heap (do_read env st) = heap st"
  "sends (do_read env st) = sends st"
  "receives (do_read env st) = receives st"
  "allocs (do_read env st) = allocs st"
  "converts (do_read env st) = converts st"
  "sent (do_read env st) = sent st"
  "received (do_read env st) = received st"
  "seen (do_read env st) = seen st"
  "inserted (do_read env st) = inserted st"
  "reads (do_read env st) = Suc (reads st)"
  "error_result (do_read env st) = fst (av_read_frame env (reads st))"
  "packet (do_read env st) = snd (av_read_frame env (reads st))"
  by (simp_all add: do_read_def split_beta)

lemma do_send_fields [simp]:
  "pBufferData (do_send env st) = pBufferData st"
  "line_size (do_send env st) = line_size st"
  "last_nb_samples (do_send env st) = last_nb_samples st"
  "is_eof (do_send env st) = is_eof st"
  "buffer (do_send env st) = buffer st"
  "packet (do_send env st) = packet st"
  "frame (do_send env st) = frame st"
  "heap (do_send env st) = heap st"
  "reads (do_send env st) = reads st"
  "receives (do_send env st) = receives st"
  "allocs (do_send env st) = allocs st"
  "converts (do_send env st) = converts st"
  "received (do_send env st) = received st"
  "seen (do_send env st) = seen st"
  "inserted (do_send env st) = inserted st"
  "sends (do_send env st) = Suc (sends st)"
  "sent (do_send env st) = sent st @ [packet st]"
  "error_result (do_send env st) = avcodec_send_packet env (sends st) (packet st)"
  by (simp_all add: do_send_def)

lemma do_receive_fields [simp]:
  "pBufferData (do_receive env st) = pBufferData st"
  "line_size (do_receive env st) = line_size st"
  "last_nb_samples (do_receive env st) = last_nb_samples st"
  "is_eof (do_receive env st) = is_eof st"
  "buffer (do_receive env st) = buffer st"
  "packet (do_receive env st) = packet st"
  "heap (do_receive env st) = heap st"
  "reads (do_receive env st) = reads st"
  "sends (do_receive env st) = sends st"
  "allocs (do_receive env st) = allocs st"
  "converts (do_receive env st) = converts st"
  "sent (do_receive env st) = sent st"
  "seen (do_receive env st) = seen st"
  "inserted (do_receive env st) = inserted st"
  "receives (do_receive env st) = Suc (receives st)"
  "error_result (do_receive env st) = fst (avcodec_receive_frame env (receives st))"
  "frame (do_receive env st) = snd (avcodec_receive_frame env (receives st))"
  "received (do_receive env st) =
     (if 0 \<le> fst (avcodec_receive_frame env (receives st))
      then received st @ [snd (avcodec_receive_frame env (receives st))] else received st)"
  by (simp_all add: do_receive_def split_beta)

lemma do_alloc_fields [simp]:
  "last_nb_samples (do_alloc env st) = last_nb_samples st"
  "is_eof (do_alloc env st) = is_eof st"
  "buffer (do_alloc env st) = buffer st"
  "packet (do_alloc env st) = packet st"
  "frame (do_alloc env st) = frame st"
  "reads (do_alloc env st) = reads st"
  "sends (do_alloc env st) = sends st"
  "receives (do_alloc env st) = receives st"
  "converts (do_alloc env st) = converts st"
  "sent (do_alloc env st) = sent st"
  "received (do_alloc env st) = received st"
  "seen (do_alloc env st) = seen st"
  "inserted (do_alloc env st) = inserted st"
  "allocs (do_alloc env st) = Suc (allocs st)"
  by (simp_all add: do_alloc_def split: sum.splits)

lemma alloc_if_changed_fields [simp]:
  "is_eof (alloc_if_changed env st) = is_eof st"
  "buffer (alloc_if_changed env st) = buffer st"
  "packet (alloc_if_changed env st) = packet st"
  "frame (alloc_if_changed env st) = frame st"
  "reads (alloc_if_changed env st) = reads st"
  "sends (alloc_if_changed env st) = sends st"
  "receives (alloc_if_changed env st) = receives st"
  "converts (alloc_if_changed env st) = converts st"
  "sent (alloc_if_changed env st) = sent st"
  "received (alloc_if_changed env st) = received st"
  "inserted (alloc_if_changed env st) = inserted st"
  "seen (alloc_if_changed env st) = seen st @ [nb_samples (frame st)]"
  "last_nb_samples (alloc_if_changed env st) = nb_samples (frame st)"
  by (simp_all add: alloc_if_changed_def Let_def)

lemma do_convert_fields [simp]:
  "pBufferData (do_convert env st) = pBufferData st"
  "line_size (do_convert env st) = line_size st"
  "last_nb_samples (do_convert env st) = last_nb_samples st"
  "is_eof (do_convert env st) = is_eof st"
  "buffer (do_convert env st) = buffer st"
  "packet (do_convert env st) = packet st"
  "frame (do_convert env st) = frame st"
  "reads (do_convert env st) = reads st"
  "sends (do_convert env st) = sends st"
  "receives (do_convert env st) = receives st"
  "allocs (do_convert env st) = allocs st"
  "sent (do_convert env st) = sent st"
  "received (do_convert env st) = received st"
  "seen (do_convert env st) = seen st"
  "inserted (do_convert env st) = inserted st"
  "converts (do_convert env st) = Suc (converts st)"
  "error_result (do_convert env st) =
     fst (swr_convert env (converts st) (nb_samples (frame st)) (frame st))"
  "length (heap (do_convert env st)) = length (heap st)"
  by (simp_all add: do_convert_def split_beta split: option.splits)

lemma do_insert_fields [simp]:
  "error_result (do_insert st) = error_result st"
  "pBufferData (do_insert st) = pBufferData st"
  "line_size (do_insert st) = line_size st"
  "last_nb_samples (do_insert st) = last_nb_samples st"
  "is_eof (do_insert st) = is_eof st"
  "packet (do_insert st) = packet st"
  "frame (do_insert st) = frame st"
  "heap (do_insert st) = heap st"
  "reads (do_insert st) = reads st"
  "sends (do_insert st) = sends st"
  "receives (do_insert st) = receives st"
  "allocs (do_insert st) = allocs st"
  "converts (do_insert st) = converts st"
  "sent (do_insert st) = sent st"
  "received (do_insert st) = received st"
  "seen (do_insert st) = seen st"
  "buffer (do_insert st) = buffer st @ scratch st"
  "inserted (do_insert st) = inserted st @ [(receives st - 1, scratch st)]"
  by (simp_all add: do_insert_def)

text \<open>The three ways out of \<open>feed\<close> and the two ways on from \<open>resample\<close>.\<close>

lemma feed_cases:
  assumes "feed env s = Inr (b, s')"
  shows "(error_result s \<noteq> AVERROR_EAGAIN \<and> \<not> b \<and> s' = s) \<or>
         (error_result s = AVERROR_EAGAIN \<and> b \<and> s' = (do_read env s)\<lparr>is_eof := True\<rparr> \<and>
            fst (av_read_frame env (reads s)) = AVERROR_EOF) \<or>
         (error_result s = AVERROR_EAGAIN \<and> \<not> b \<and> s' = do_send env (do_read env s) \<and>
            fst (av_read_frame env (reads s)) \<noteq> AVERROR_EOF)"
  using assms
  by (auto simp add: feed_def Let_def split: if_splits option.splits)

lemma resample_cases:
  assumes "resample env s = Inr (b, s')"
  shows "format_av_error (error_result (alloc_if_changed env s)) = None \<and>
         s' = (if b then do_convert env (alloc_if_changed env s)
               else do_insert (do_convert env (alloc_if_changed env s))) \<and>
         (b \<longleftrightarrow> error_result (do_convert env (alloc_if_changed env s)) = AVERROR_EAGAIN \<or>
                error_result (do_convert env (alloc_if_changed env s)) = AVERROR_EOF) \<and>
         (\<not> b \<longrightarrow> 0 \<le> error_result (do_convert env (alloc_if_changed env s)))"
  using assms
  by (auto simp add: resample_def Let_def format_av_error_def split: if_splits option.splits)

lemma format_av_error_None:
  "format_av_error r = None \<longleftrightarrow> 0 \<le> r \<or> r = AVERROR_EAGAIN \<or> r = AVERROR_EOF"
  by (auto simp add: format_av_error_def)

lemma AVERROR_negative [simp]:
  "AVERROR_EAGAIN < 0" "AVERROR_EOF < 0" "AVERROR_EAGAIN \<noteq> AVERROR_EOF"
  "\<not> 0 \<le> AVERROR_EAGAIN" "\<not> 0 \<le> AVERROR_EOF" "AVERROR_EOF \<noteq> AVERROR_EAGAIN"
  by (simp_all add: AVERROR_EAGAIN_def AVERROR_EOF_def)


lemma alloc_if_changed_reuse:
  "nb_samples (frame st) = last_nb_samples st \<Longrightarrow>
   alloc_if_changed env st = st\<lparr>seen := seen st @ [nb_samples (frame st)]\<rparr>"
  by (simp add: alloc_if_changed_def Let_def)

section \<open>Facts about every run\<close>

lemma retry_loop_untouched:
  assumes "retry_loop env s = Some (Inr s')"
  shows "pBufferData s' = pBufferData s \<and> line_size s' = line_size s \<and>
         last_nb_samples s' = last_nb_samples s \<and> buffer s' = buffer s \<and>
         heap s' = heap s \<and> allocs s' = allocs s \<and> converts s' = converts s \<and>
         seen s' = seen s \<and> inserted s' = inserted s"
proof -
  let ?I = "\<lambda>x::pump. pBufferData x = pBufferData s \<and> line_size x = line_size s \<and>
         last_nb_samples x = last_nb_samples s \<and> buffer x = buffer s \<and>
         heap x = heap s \<and> allocs x = allocs s \<and> converts x = converts s \<and>
         seen x = seen s \<and> inserted x = inserted s"
  have "?I s' \<or> ?I s'"
  proof (rule retry_loop_rule [OF assms, where I = ?I and M = ?I])
    show "?I s" by simp
  next
    fix x x' assume "?I x" "feed env x = Inr (False, x')"
    with feed_cases [of env x False x'] show "?I x'" by auto
  next
    fix x x' assume "?I x" "feed env x = Inr (True, x')"
    with feed_cases [of env x True x'] show "?I x'" by auto
  next
    fix x assume "?I x"
    then show "?I (do_receive env x)" by simp
  next
    fix x assume "?I x"
    then show "?I (do_receive env x)" by simp
  qed
  then show ?thesis by blast
qed

text \<open>The state in which the loop is entered (line 67).\<close>

lemma FFMPEG_decode_run_loop:
  assumes "FFMPEG_decode_run env = Some (Inr st')"
  shows "pump_loop env ((do_send env (do_read env pump_init))\<lparr>error_result := 0\<rparr>) =
         Some (Inr st')"
  using assms by (simp add: FFMPEG_decode_run_def Let_def split: option.splits)

text \<open>The two example runs, computed.\<close>

lemma ex_env_run: "FFMPEG_decode_run ex_env = Some (Inr ex_final)"
  by code_simp

lemma ex_starved_run: "FFMPEG_decode ex_starved = Some (Inr [])"
  by code_simp

lemma ex_first_turn: "resample ex_env ex_first_frame = Inr (False, ex_first_insert)"
  by code_simp

lemma ex_short_turn:
  "resample (ex_env\<lparr>swr_convert := ex_short_convert\<rparr>) ex_first_frame = Inr (False, ex_short_insert)"
  by code_simp

lemma ex_first_frame_ok: "scratch_ok ex_first_frame"
  by code_simp

lemma ex_starved_retry: "retry_loop ex_starved ex_starved_start = Some (Inr ex_starved_final)"
  by code_simp

text \<open>Two ways out of a turn of the outer loop.\<close>

lemma pump_loop_at_eof:
  assumes "retry_loop env s = Some (Inr s')" "is_eof s'" "0 \<le> error_result s" "\<not> is_eof s"
  shows "pump_loop env s = Some (Inr s')"
  using assms by (subst pump_loop.simps) simp

lemma pump_loop_exit:
  assumes "retry_loop env s = Some (Inl e)" "0 \<le> error_result s" "\<not> is_eof s"
  shows "pump_loop env s = Some (Inl e)"
  using assms by (subst pump_loop.simps) simp

lemma ex_padded_decodes: "decodes ex_padded 2 4"
  unfolding decodes_def
  apply (intro conjI)
         apply simp
        apply (simp add: ex_padded_def ex_env_def less_Suc_eq numeral_2_eq_2)
       apply (simp add: ex_padded_def ex_env_def)
      apply (simp add: ex_padded_def ex_env_def format_av_error_def)
     apply (auto simp add: ex_padded_def ex_env_def less_Suc_eq numeral_eq_Suc)[1]
    apply (simp add: ex_padded_def ex_env_def)
   apply code_simp
  apply (simp add: ex_padded_def ex_env_def)
  done

lemma ex_dup_decodes: "decodes ex_dup 2 4"
  unfolding decodes_def
  apply (intro conjI)
         apply simp
        apply (simp add: ex_dup_def ex_env_def less_Suc_eq numeral_2_eq_2)
       apply (simp add: ex_dup_def ex_env_def)
      apply (simp add: ex_dup_def ex_env_def format_av_error_def)
     apply (auto simp add: ex_dup_def ex_env_def less_Suc_eq numeral_eq_Suc)[1]
    apply (simp add: ex_dup_def ex_env_def)
   apply code_simp
  apply (simp add: ex_dup_def ex_env_def)
  done

lemma ex_padded_turn:
  "resample ex_padded ex_padded_first_frame = Inr (False, ex_padded_first_insert)"
  by code_simp

lemma ex_padded_first_frame_ok: "scratch_ok ex_padded_first_frame"
  by code_simp

lemma padded_line_size_nonneg: "0 \<le> n \<Longrightarrow> 0 \<le> padded_line_size n"
  by (simp add: padded_line_size_def FFALIGN32_def pos_imp_zdiv_nonneg_iff)

lemma ex_padded_allocator: "padded_allocator ex_padded"
  using padded_line_size_nonneg
  by (auto simp add: padded_allocator_def ex_padded_def AVERROR_EAGAIN_def AVERROR_EOF_def)


section \<open>The scratch buffer and the retry loop\<close>

lemma length_overwrite [simp]: "length (overwrite w blk) = length blk"
  by (simp add: overwrite_def)

lemma scratch_ok_same:
  "pBufferData a = pBufferData b \<Longrightarrow> line_size a = line_size b \<Longrightarrow> heap a = heap b \<Longrightarrow>
   scratch_ok a = scratch_ok b"
  by (simp add: scratch_ok_def split: option.splits)

lemma scratch_ok_init: "scratch_ok ((do_send env (do_read env pump_init))\<lparr>error_result := 0\<rparr>)"
  by (simp add: scratch_ok_def pump_init_def)

lemma scratch_ok_do_alloc: "scratch_ok s \<Longrightarrow> scratch_ok (do_alloc env s)"
  by (simp add: scratch_ok_def do_alloc_def split: sum.splits option.splits)

lemma scratch_ok_alloc_if_changed: "scratch_ok s \<Longrightarrow> scratch_ok (alloc_if_changed env s)"
proof -
  assume ok: "scratch_ok s"
  let ?s0 = "s\<lparr>seen := seen s @ [nb_samples (frame s)]\<rparr>"
  have "scratch_ok ?s0 = scratch_ok s"
    by (rule scratch_ok_same) simp_all
  with ok have s0: "scratch_ok ?s0" by simp
  then have "scratch_ok (do_alloc env ?s0)" by (rule scratch_ok_do_alloc)
  moreover have "scratch_ok ((do_alloc env ?s0)\<lparr>last_nb_samples := nb_samples (frame ?s0)\<rparr>) =
      scratch_ok (do_alloc env ?s0)"
    by (rule scratch_ok_same) simp_all
  ultimately have "scratch_ok ((do_alloc env ?s0)\<lparr>last_nb_samples := nb_samples (frame ?s0)\<rparr>)"
    by simp
  with s0 show ?thesis
    unfolding alloc_if_changed_def Let_def by (simp only: if_split) blast
qed

lemma scratch_ok_do_convert: "scratch_ok s \<Longrightarrow> scratch_ok (do_convert env s)"
  by (auto simp add: scratch_ok_def do_convert_def split_beta split: option.splits)

lemma scratch_ok_do_insert: "scratch_ok s \<Longrightarrow> scratch_ok (do_insert s)"
  by (simp add: scratch_ok_def split: option.splits)

lemma length_scratch: "scratch_ok s \<Longrightarrow> length (scratch s) = nat (line_size s)"
  by (auto simp add: scratch_ok_def scratch_def split: option.splits)

lemma scratch_ok_resample:
  assumes "scratch_ok s" "resample env s = Inr (b, s')"
  shows "scratch_ok s'"
  using resample_cases [OF assms(2)] assms(1)
  by (auto intro!: scratch_ok_do_insert scratch_ok_do_convert scratch_ok_alloc_if_changed
      split: if_splits)

lemma scratch_ok_retry:
  assumes "scratch_ok s" "retry_loop env s = Some (Inr s')"
  shows "scratch_ok s'"
  using retry_loop_untouched [OF assms(2)] assms(1) scratch_ok_same [of s' s] by simp

section \<open>The run on a well-formed input\<close>

text \<open>
  On a run that \<open>decodes\<close> describes both loops return, and what they return is fixed
  by the answers of the libraries: the retry loop stops at the next frame or at the end
  of the container, and the pump appends the chunks of the frames delivered.
\<close>

lemma waits_step:
  "j < n \<Longrightarrow> waits env j n =
     (if fst (avcodec_receive_frame env j) = AVERROR_EAGAIN then 1 else 0) + waits env (Suc j) n"
  by (simp add: waits_def upt_conv_Cons)

lemma frames_step:
  "j < n \<Longrightarrow> frames env j n =
     (if 0 \<le> fst (avcodec_receive_frame env j) then [snd (avcodec_receive_frame env j)] else []) @
     frames env (Suc j) n"
  by (simp add: frames_def upt_conv_Cons)

lemma frames_empty: "n \<le> j \<Longrightarrow> frames env j n = []"
  by (simp add: frames_def)

lemma waits_empty: "n \<le> j \<Longrightarrow> waits env j n = 0"
  by (simp add: waits_def)

lemma waits_last:
  assumes "j \<le> R" "fst (avcodec_receive_frame env R) = AVERROR_EAGAIN"
  shows "1 \<le> waits env j (Suc R)"
proof -
  from assms have "R \<in> set (filter (\<lambda>i. fst (avcodec_receive_frame env i) = AVERROR_EAGAIN) [j..<Suc R])"
    by simp
  then have "filter (\<lambda>i. fst (avcodec_receive_frame env i) = AVERROR_EAGAIN) [j..<Suc R] \<noteq> []"
    by (metis empty_iff list.set(1))
  then show ?thesis
    unfolding waits_def by (simp add: Suc_le_eq)
qed

lemma retry_loop_decodes:
  assumes D: "decodes env K R"
  shows "\<not> is_eof s \<Longrightarrow> receives s = j \<Longrightarrow>
     (if error_result s = AVERROR_EAGAIN then j \<le> Suc R \<and> waits env j (Suc R) + reads s = K
      else j \<le> R \<and> waits env j (Suc R) + reads s = Suc K) \<Longrightarrow>
     \<exists>s'. retry_loop env s = Some (Inr s') \<and>
       (if is_eof s' then frames env j R = [] \<and> received s' = received s
        else \<exists>j'. j \<le> j' \<and> j' < R \<and> receives s' = Suc j' \<and> 0 \<le> error_result s' \<and>
               frame s' = snd (avcodec_receive_frame env j') \<and> 0 < nb_samples (frame s') \<and>
               frames env j R = frame s' # frames env (Suc j') R \<and>
               received s' = received s @ [frame s'] \<and>
               waits env (Suc j') (Suc R) + reads s' = Suc K)"
proof (induction "Suc R - j" arbitrary: s j rule: less_induct)
  case less
  let ?goal = "\<exists>s'. retry_loop env s = Some (Inr s') \<and>
       (if is_eof s' then frames env j R = [] \<and> received s' = received s
        else \<exists>j'. j \<le> j' \<and> j' < R \<and> receives s' = Suc j' \<and> 0 \<le> error_result s' \<and>
               frame s' = snd (avcodec_receive_frame env j') \<and> 0 < nb_samples (frame s') \<and>
               frames env j R = frame s' # frames env (Suc j') R \<and>
               received s' = received s @ [frame s'] \<and>
               waits env (Suc j') (Suc R) + reads s' = Suc K)"
  from D have reads_ok: "\<And>k. k < K \<Longrightarrow> 0 \<le> fst (av_read_frame env k)"
    and eof: "fst (av_read_frame env K) = AVERROR_EOF"
    and sends_ok: "\<And>k p. format_av_error (avcodec_send_packet env k p) = None"
    and answers: "\<And>i. i < R \<Longrightarrow> 0 \<le> fst (avcodec_receive_frame env i) \<and>
               0 < nb_samples (snd (avcodec_receive_frame env i)) \<or>
             fst (avcodec_receive_frame env i) = AVERROR_EAGAIN"
    and last_wait: "fst (avcodec_receive_frame env R) = AVERROR_EAGAIN"
    unfolding decodes_def by blast+
  have phase: ?goal
    if f: "feed env s = Inr (False, s1)" and e1: "\<not> is_eof s1" and r1: "receives s1 = j"
      and j: "j \<le> R" and w1: "waits env j (Suc R) + reads s1 = Suc K"
      and rec1: "received s1 = received s" for s1
  proof -
    let ?s2 = "do_receive env s1"
    from j have jS: "j < Suc R" by simp
    show ?thesis
    proof (cases "fst (avcodec_receive_frame env j) = AVERROR_EAGAIN")
      case True
      with f r1 have loop: "retry_loop env s = retry_loop env ?s2"
        by (subst retry_loop.simps) (simp add: Let_def)
      have pre: "\<not> is_eof ?s2" "receives ?s2 = Suc j"
        using e1 r1 by simp_all
      from waits_step [OF jS, of env] True w1
      have "waits env (Suc j) (Suc R) + reads ?s2 = K" by simp
      with True r1 j have cond: "if error_result ?s2 = AVERROR_EAGAIN
          then Suc j \<le> Suc R \<and> waits env (Suc j) (Suc R) + reads ?s2 = K
          else Suc j \<le> R \<and> waits env (Suc j) (Suc R) + reads ?s2 = Suc K"
        by simp
      from j have "Suc R - Suc j < Suc R - j" by simp
      from less.hyps [OF this pre cond] obtain s' where
        s': "retry_loop env ?s2 = Some (Inr s')"
        and post: "if is_eof s' then frames env (Suc j) R = [] \<and> received s' = received ?s2
          else \<exists>j'. Suc j \<le> j' \<and> j' < R \<and> receives s' = Suc j' \<and> 0 \<le> error_result s' \<and>
               frame s' = snd (avcodec_receive_frame env j') \<and> 0 < nb_samples (frame s') \<and>
               frames env (Suc j) R = frame s' # frames env (Suc j') R \<and>
               received s' = received ?s2 @ [frame s'] \<and>
               waits env (Suc j') (Suc R) + reads s' = Suc K"
        by blast
      have fr: "frames env j R = frames env (Suc j) R"
      proof (cases "j < R")
        case True
        from frames_step [OF this, of env] \<open>fst (avcodec_receive_frame env j) = AVERROR_EAGAIN\<close>
        show ?thesis by simp
      next
        case False
        then show ?thesis by (simp add: frames_empty)
      qed
      from True r1 rec1 have rec2: "received ?s2 = received s" by simp
      from post fr rec2 have "if is_eof s' then frames env j R = [] \<and> received s' = received s
          else \<exists>j'. j \<le> j' \<and> j' < R \<and> receives s' = Suc j' \<and> 0 \<le> error_result s' \<and>
               frame s' = snd (avcodec_receive_frame env j') \<and> 0 < nb_samples (frame s') \<and>
               frames env j R = frame s' # frames env (Suc j') R \<and>
               received s' = received s @ [frame s'] \<and>
               waits env (Suc j') (Suc R) + reads s' = Suc K"
        by (auto split: if_splits)
      with loop s' show ?thesis by auto
    next
      case False
      with last_wait have "j \<noteq> R" by auto
      with j have jR: "j < R" by simp
      from answers [OF jR] False have fr: "0 \<le> fst (avcodec_receive_frame env j)"
        "0 < nb_samples (snd (avcodec_receive_frame env j))" by auto
      from f r1 False have ret: "retry_loop env s = Some (Inr ?s2)"
        by (subst retry_loop.simps) (simp add: Let_def)
      from waits_step [OF jS, of env] False w1
      have "waits env (Suc j) (Suc R) + reads ?s2 = Suc K" by simp
      moreover from frames_step [OF jR, of env] fr r1
      have "frames env j R = frame ?s2 # frames env (Suc j) R" by simp
      moreover from fr r1 rec1 have "received ?s2 = received s @ [frame ?s2]" by simp
      moreover from fr r1 have "0 \<le> error_result ?s2" "0 < nb_samples (frame ?s2)"
        "frame ?s2 = snd (avcodec_receive_frame env j)" "receives ?s2 = Suc j" by simp_all
      moreover from e1 have "\<not> is_eof ?s2" by simp
      ultimately show ?thesis using ret jR by auto
    qed
  qed
  show ?case
  proof (cases "error_result s = AVERROR_EAGAIN")
    case False
    then have "feed env s = Inr (False, s)" by (simp add: feed_def)
    from phase [OF this less.prems(1,2)] False less.prems(3) show ?thesis by simp
  next
    case True
    with less.prems(3) have j: "j \<le> Suc R" and w: "waits env j (Suc R) + reads s = K" by simp_all
    show ?thesis
    proof (cases "j = Suc R")
      case True
      with w have "reads s = K" by (simp add: waits_empty)
      with eof \<open>error_result s = AVERROR_EAGAIN\<close>
      have "feed env s = Inr (True, (do_read env s)\<lparr>is_eof := True\<rparr>)"
        by (simp add: feed_def Let_def format_av_error_def)
      then have "retry_loop env s = Some (Inr ((do_read env s)\<lparr>is_eof := True\<rparr>))"
        by (subst retry_loop.simps) simp
      with True show ?thesis by (simp add: frames_empty)
    next
      case False
      with j have jR: "j \<le> R" by simp
      from waits_last [OF jR last_wait] w have "reads s < K" by simp
      from reads_ok [OF this] have "0 \<le> fst (av_read_frame env (reads s))" .
      then have "format_av_error (fst (av_read_frame env (reads s))) = None"
        and "fst (av_read_frame env (reads s)) \<noteq> AVERROR_EOF"
        by (auto simp add: format_av_error_None)
      with sends_ok \<open>error_result s = AVERROR_EAGAIN\<close>
      have f: "feed env s = Inr (False, do_send env (do_read env s))"
        by (simp add: feed_def Let_def)
      show ?thesis
      proof (rule phase [OF f])
        show "\<not> is_eof (do_send env (do_read env s))" using less.prems(1) by simp
        show "receives (do_send env (do_read env s)) = j" using less.prems(2) by simp
        show "j \<le> R" by (rule jR)
        show "waits env j (Suc R) + reads (do_send env (do_read env s)) = Suc K" using w by simp
        show "received (do_send env (do_read env s)) = received s" by simp
      qed
    qed
  qed
qed

lemma overwrite_Nil [simp]: "overwrite w [] = []"
  by (simp add: overwrite_def)

lemma scratch_seen [simp]: "scratch (s\<lparr>seen := x\<rparr>) = scratch s"
  by (simp add: scratch_def split: option.splits)

lemma scratch_do_insert [simp]: "scratch (do_insert s) = scratch s"
  by (simp add: scratch_def split: option.splits)

lemma scratch_do_convert:
  assumes "scratch_ok s"
  shows "scratch (do_convert env s) =
         overwrite (snd (swr_convert env (converts s) (nb_samples (frame s)) (frame s))) (scratch s)"
  using assms
  by (auto simp add: scratch_ok_def scratch_def do_convert_def split_beta split: option.splits)

lemma alloc_if_changed_fresh:
  assumes "nb_samples (frame s) \<noteq> last_nb_samples s"
    and "av_samples_alloc env (allocs s) (nb_samples (frame s)) = Inr blk"
  shows "scratch (alloc_if_changed env s) = blk"
    and "error_result (alloc_if_changed env s) = int (length blk)"
    and "allocs (alloc_if_changed env s) = Suc (allocs s)"
  using assms by (simp_all add: alloc_if_changed_def do_alloc_def Let_def scratch_def)

lemma pump_loop_decodes:
  assumes D: "decodes env K R" and A: "allocates env"
  shows "0 \<le> error_result s \<Longrightarrow> \<not> is_eof s \<Longrightarrow> receives s = j \<Longrightarrow> j \<le> R \<Longrightarrow>
     waits env j (Suc R) + reads s = Suc K \<Longrightarrow> scratch_ok s \<Longrightarrow>
     \<exists>s'. pump_loop env s = Some (Inr s') \<and>
          buffer s' = buffer s @
            concat (chunks env (converts s) (allocs s) (last_nb_samples s) (scratch s)
                      (frames env j R)) \<and>
          received s' = received s @ frames env j R"
proof (induction "Suc R - j" arbitrary: s j rule: less_induct)
  case less
  from D have conv_ok: "\<And>k n f. 0 < n \<Longrightarrow> 0 \<le> fst (swr_convert env k n f)"
    unfolding decodes_def by blast
  from less.prems(1) have ne: "error_result s \<noteq> AVERROR_EAGAIN" by auto
  with less.prems have cond: "if error_result s = AVERROR_EAGAIN
      then j \<le> Suc R \<and> waits env j (Suc R) + reads s = K
      else j \<le> R \<and> waits env j (Suc R) + reads s = Suc K" by simp
  from retry_loop_decodes [OF D less.prems(2,3) cond] obtain s1 where
    r: "retry_loop env s = Some (Inr s1)"
    and post: "if is_eof s1 then frames env j R = [] \<and> received s1 = received s
        else \<exists>j'. j \<le> j' \<and> j' < R \<and> receives s1 = Suc j' \<and> 0 \<le> error_result s1 \<and>
               frame s1 = snd (avcodec_receive_frame env j') \<and> 0 < nb_samples (frame s1) \<and>
               frames env j R = frame s1 # frames env (Suc j') R \<and>
               received s1 = received s @ [frame s1] \<and>
               waits env (Suc j') (Suc R) + reads s1 = Suc K"
    by blast
  note same = retry_loop_untouched [OF r]
  show ?case
  proof (cases "is_eof s1")
    case True
    from pump_loop_at_eof [OF r True less.prems(1,2)] post True same show ?thesis by simp
  next
    case False
    with post obtain j' where j': "j \<le> j'" "j' < R" "receives s1 = Suc j'"
      and e1: "0 \<le> error_result s1" and pos: "0 < nb_samples (frame s1)"
      and fr: "frames env j R = frame s1 # frames env (Suc j') R"
      and rec: "received s1 = received s @ [frame s1]"
      and w: "waits env (Suc j') (Suc R) + reads s1 = Suc K"
      by auto
    let ?f = "frame s1"
    let ?w = "snd (swr_convert env (converts s) (nb_samples ?f) ?f)"
    let ?a = "alloc_if_changed env s1"
    let ?c = "do_convert env ?a"
    let ?s2 = "do_insert ?c"
    from scratch_ok_retry [OF less.prems(6) r] have ok1: "scratch_ok s1" .
    then have oka: "scratch_ok ?a" by (rule scratch_ok_alloc_if_changed)
    then have okc: "scratch_ok ?c" by (rule scratch_ok_do_convert)
    have sc1: "scratch s1 = scratch s"
      using same by (simp add: scratch_def split: option.splits)
    have alloc: "format_av_error (error_result ?a) = None \<and>
        chunks env (converts s) (allocs s) (last_nb_samples s) (scratch s) (?f # frames env (Suc j') R) =
        overwrite ?w (scratch ?a) #
          chunks env (Suc (converts s)) (allocs ?a) (nb_samples ?f)
            (overwrite ?w (scratch ?a)) (frames env (Suc j') R)"
    proof (cases "nb_samples ?f = last_nb_samples s1")
      case True
      with e1 same sc1 show ?thesis
        by (simp add: alloc_if_changed_reuse format_av_error_None Let_def)
    next
      case changed: False
      from A pos obtain blk where
        blk: "av_samples_alloc env (allocs s1) (nb_samples ?f) = Inr blk"
        unfolding allocates_def by blast
      from alloc_if_changed_fresh [OF changed blk] changed blk same show ?thesis
        by (simp add: format_av_error_None Let_def)
    qed
    have conv: "0 \<le> error_result ?c"
      using conv_ok [OF pos] by simp
    then have cne: "error_result ?c \<noteq> AVERROR_EAGAIN" "error_result ?c \<noteq> AVERROR_EOF"
      "format_av_error (error_result ?c) = None" "\<not> error_result ?c < 0"
      by (auto simp add: format_av_error_None)
    from alloc cne have res: "resample env s1 = Inr (False, ?s2)"
      by (simp add: resample_def Let_def)
    from r False res less.prems(1,2) have loop: "pump_loop env s = pump_loop env ?s2"
      by (subst pump_loop.simps) simp
    have m: "Suc R - Suc j' < Suc R - j" using j' by simp
    have pre: "0 \<le> error_result ?s2" "\<not> is_eof ?s2" "receives ?s2 = Suc j'" "Suc j' \<le> R"
      "waits env (Suc j') (Suc R) + reads ?s2 = Suc K" "scratch_ok ?s2"
      using conv False j' w okc by (simp_all add: scratch_ok_do_insert)
    from less.hyps [OF m pre] obtain s' where
      s': "pump_loop env ?s2 = Some (Inr s')"
      and b: "buffer s' = buffer ?s2 @
            concat (chunks env (converts ?s2) (allocs ?s2) (last_nb_samples ?s2) (scratch ?s2)
                      (frames env (Suc j') R))"
      and rc: "received s' = received ?s2 @ frames env (Suc j') R"
      by blast
    have sc: "scratch ?c = overwrite ?w (scratch ?a)"
      using scratch_do_convert [OF oka, of env] same by simp
    from b sc same alloc fr have "buffer s' = buffer s @
            concat (chunks env (converts s) (allocs s) (last_nb_samples s) (scratch s)
                      (frames env j R))"
      by simp
    moreover from rc rec fr have "received s' = received s @ frames env j R" by simp
    ultimately show ?thesis using loop s' by simp
  qed
qed

lemma FFMPEG_decode_run_chunks:
  assumes D: "decodes env K R" and A: "allocates env"
  shows "\<exists>s'. FFMPEG_decode_run env = Some (Inr s') \<and>
           buffer s' = concat (chunks env 0 0 0 [] (frames env 0 R)) \<and>
           received s' = frames env 0 R"
proof -
  let ?s = "(do_send env (do_read env pump_init))\<lparr>error_result := 0\<rparr>"
  from D have k: "0 < K" and w: "waits env 0 (Suc R) = K"
    and rd: "\<And>k. k < K \<Longrightarrow> 0 \<le> fst (av_read_frame env k)"
    and sd: "\<And>k p. format_av_error (avcodec_send_packet env k p) = None"
    unfolding decodes_def by auto
  from rd [OF k] have "format_av_error (fst (av_read_frame env 0)) = None"
    by (simp add: format_av_error_None)
  with sd have run: "FFMPEG_decode_run env = pump_loop env ?s"
    by (simp add: FFMPEG_decode_run_def Let_def pump_init_def)
  have "\<exists>s'. pump_loop env ?s = Some (Inr s') \<and>
          buffer s' = buffer ?s @
            concat (chunks env (converts ?s) (allocs ?s) (last_nb_samples ?s) (scratch ?s)
                      (frames env 0 R)) \<and>
          received s' = received ?s @ frames env 0 R"
    by (rule pump_loop_decodes [OF D A]) (simp_all add: pump_init_def w scratch_ok_def)
  moreover have "scratch ?s = []" by (simp add: scratch_def pump_init_def)
  ultimately show ?thesis using run by (simp add: pump_init_def)
qed

lemma frames_positive:
  assumes "decodes env K R"
  shows "\<forall>f \<in> set (frames env j R). 0 < nb_samples f"
  using assms unfolding decodes_def frames_def by auto


lemma chunks_converted:
  assumes A: "allocates env"
  shows "\<forall>f \<in> set fs. 0 < nb_samples f \<Longrightarrow>
         length (chunks env i a prev cur fs) = length fs \<and>
         (\<forall>n < length fs. \<exists>blk. chunks env i a prev cur fs ! n =
                                overwrite (converted env i fs ! n) blk)"
proof (induction fs arbitrary: i a prev cur)
  case Nil
  then show ?case by simp
next
  case (Cons f fs)
  then have pos: "0 < nb_samples f" and rest: "\<forall>f \<in> set fs. 0 < nb_samples f" by simp_all
  from A pos obtain blk where blk: "av_samples_alloc env a (nb_samples f) = Inr blk"
    unfolding allocates_def by blast
  let ?w = "snd (swr_convert env i (nb_samples f) f)"
  obtain c a' p' where step: "chunks env i a prev cur (f # fs) =
      overwrite ?w c # chunks env (Suc i) a' p' (overwrite ?w c) fs"
    using blk by (cases "nb_samples f = prev") (simp_all add: Let_def)
  note IH = Cons.IH [OF rest, of "Suc i" a' p' "overwrite ?w c"]
  have "\<exists>blk. chunks env i a prev cur (f # fs) ! n = overwrite (converted env i (f # fs) ! n) blk"
    if "n < length (f # fs)" for n
  proof (cases n)
    case 0
    with step show ?thesis by auto
  next
    case (Suc m)
    with that IH step show ?thesis by simp
  qed
  with IH step show ?case by simp
qed

lemma take_overwrite: "take (length w) (overwrite w blk) = take (length (overwrite w blk)) w"
  by (simp add: overwrite_def min_def)

section \<open>The size query of the byte source\<close>

text \<open>
  C9, as the spec has it: for a seek with the size-query origin the adapter reports the
  total size of the source, without moving the read position, when the size is known,
  and answers "unsupported" only when it is not. The code does not: the three-byte file
  has a known size and the answer is -1.
\<close>

theorem SeekCallback_size_query_counterexample:
  "file_size ex_file = 3 \<and> SeekCallback fseek ex_file 0 0x10000 = (- 1, ex_file)"
  by (simp add: file_size_def ex_file_def SeekCallback_def)

text \<open>
  C9, amended: for every seek with the size-query origin \<^verbatim>\<open>0x10000\<close> the adapter answers -1
  ("unsupported") and leaves the file and its read position as they were, whatever the
  source, the offset and the library's \<^verbatim>\<open>fseek\<close>; it never reports a size.
\<close>

theorem SeekCallback_size_query_unsupported:
  "SeekCallback seek f offset 0x10000 = (- 1, f)"
  by (simp add: SeekCallback_def)

section \<open>A container without an audio stream\<close>

lemma find_audio_stream_none:
  "\<forall>s \<in> set ss. codec_type s \<noteq> AVMEDIA_TYPE_AUDIO \<Longrightarrow> find_audio_stream ss i = - 1"
  by (induction ss arbitrary: i) simp_all

text \<open>
  C7: when no stream of the container is an audio stream, the setup routine ends the
  process with a diagnostic, whatever the libraries answer: it never returns a
  \<open>SoundData\<close> (and never runs on for ever). Once the container is open (the first
  three calls passed their checks), the exit is the one of line 199, with status -1 and
  the message that no audio stream was found.
\<close>

theorem no_audio_stream_is_reported:
  assumes "\<forall>s \<in> set (streams lib). codec_type s \<noteq> AVMEDIA_TYPE_AUDIO"
  shows "(\<exists>e. read_audio_into_buffer lib env = Some (Inl e)) \<and>
         (avio_alloc_context lib \<noteq> None \<and> format_av_error (avformat_open_input lib) = None \<and>
          format_av_error (avformat_find_stream_info lib) = None \<longrightarrow>
          read_audio_into_buffer lib env =
            Some (Inl (ExitMsg ''FFMPEG could not find any audio stream!'')))"
proof -
  from assms have idx: "find_audio_stream (streams lib) 0 = - 1"
    by (rule find_audio_stream_none)
  have opened: "read_audio_into_buffer lib env =
      Some (Inl (ExitMsg ''FFMPEG could not find any audio stream!''))"
    if "avio_alloc_context lib \<noteq> None" "format_av_error (avformat_open_input lib) = None"
      "format_av_error (avformat_find_stream_info lib) = None"
    using that idx
    by (auto simp add: read_audio_into_buffer_def checked_def format_av_error_ptr_def Let_def)
  have "\<exists>e. read_audio_into_buffer lib env = Some (Inl e)"
  proof (cases "avio_alloc_context lib")
    case None
    then show ?thesis
      by (simp add: read_audio_into_buffer_def checked_def format_av_error_ptr_def)
  next
    case ctx: (Some u)
    show ?thesis
    proof (cases "format_av_error (avformat_open_input lib)")
      case (Some e)
      with ctx show ?thesis
        by (simp add: read_audio_into_buffer_def checked_def format_av_error_ptr_def)
    next
      case op: None
      show ?thesis
      proof (cases "format_av_error (avformat_find_stream_info lib)")
        case (Some e)
        with ctx op show ?thesis
          by (simp add: read_audio_into_buffer_def checked_def format_av_error_ptr_def)
      next
        case None
        with ctx op opened show ?thesis by simp
      qed
    qed
  qed
  with opened show ?thesis by blast
qed

theorem no_audio_stream_is_reported_witness:
  "read_audio_into_buffer ex_lib_no_audio ex_env =
     Some (Inl (ExitMsg ''FFMPEG could not find any audio stream!''))"
proof -
  have none: "\<forall>s \<in> set (streams ex_lib_no_audio). codec_type s \<noteq> AVMEDIA_TYPE_AUDIO"
    by (simp add: ex_lib_no_audio_def ex_lib_def)
  have "avio_alloc_context ex_lib_no_audio \<noteq> None \<and>
        format_av_error (avformat_open_input ex_lib_no_audio) = None \<and>
        format_av_error (avformat_find_stream_info ex_lib_no_audio) = None"
    by (simp add: ex_lib_no_audio_def ex_lib_def format_av_error_def)
  with no_audio_stream_is_reported [OF none, of ex_env] show ?thesis by blast
qed

section \<open>When the scratch buffer is allocated\<close>





section \<open>Which packets reach the decoder\<close>

lemma pump_loop_sent:
  assumes run: "pump_loop env s = Some (Inr s')"
    and init: "sent s = map (\<lambda>k. snd (av_read_frame env k)) [0..<sends s]"
      "reads s = (if is_eof s then Suc (sends s) else sends s)"
  shows "sent s' = map (\<lambda>k. snd (av_read_frame env k)) [0..<sends s'] \<and>
         reads s' = (if is_eof s' then Suc (sends s') else sends s')"
proof -
  let ?S = "\<lambda>x::pump. sent x = map (\<lambda>k. snd (av_read_frame env k)) [0..<sends x]"
  let ?I = "\<lambda>x::pump. ?S x \<and> reads x = (if is_eof x then Suc (sends x) else sends x)"
  let ?G = "\<lambda>x::pump. ?S x \<and> reads x = sends x \<and> \<not> is_eof x"
  let ?B = "\<lambda>x::pump. ?S x \<and> reads x = Suc (sends x) \<and> is_eof x"
  have retry: "?I x'" if "?I x" "\<not> is_eof x" "retry_loop env x = Some (Inr x')" for x x'
  proof -
    have "?B x' \<or> ?G x'"
    proof (rule retry_loop_rule [OF that(3), where I = ?G and M = ?G])
      from that(1,2) show "?G x" by simp
    next
      fix y y' assume "?G y" "feed env y = Inr (False, y')"
      with feed_cases [of env y False y'] show "?G y'" by auto
    next
      fix y y' assume "?G y" "feed env y = Inr (True, y')"
      with feed_cases [of env y True y'] show "?B y'" by auto
    next
      fix y assume "?G y" then show "?G (do_receive env y)" by simp
    next
      fix y assume "?G y" then show "?G (do_receive env y)" by simp
    qed
    then show ?thesis by auto
  qed
  show ?thesis
  proof (rule pump_loop_rule [OF run, where I = ?I and M = ?I and F = ?I])
    from init show "?I s" by simp
  next
    fix x x' assume "?I x" "\<not> is_eof x" "retry_loop env x = Some (Inr x')"
    then have "?I x'" by (rule retry)
    then show "if is_eof x' then ?I x' else ?I x'" by simp
  next
    fix x x' assume i: "?I x" and r: "resample env x = Inr (False, x')"
    from resample_cases [OF r] i show "?I x'" by simp
  next
    fix x x' assume i: "?I x" and r: "resample env x = Inr (True, x')"
    from resample_cases [OF r] i show "?I x'" by simp
  next
    fix x assume "?I x" then show "?I x" .
  qed
qed

text \<open>
  C8, as the spec has it: a packet read from the container is sent to the decoder only if
  it belongs to the selected audio stream. The code does not look at the stream of a
  packet: in \<open>ex_lib\<close> the audio stream selected by lines 185-196 is stream 1, and on
  \<open>ex_env\<close> the pump sends the packet of stream 0 to the decoder as well.
\<close>

theorem packets_of_other_streams_are_sent_counterexample:
  "find_audio_stream (streams ex_lib) 0 = 1 \<and>
   map_option (map_sum id (map stream_index \<circ> sent)) (FFMPEG_decode_run ex_env) = Some (Inr [0, 1])"
  by (simp add: ex_env_run) (simp add: ex_lib_def ex_final_def)

text \<open>
  C8, amended: the pump sends to the decoder every packet it gets from the container
  reader, in the order read and whatever stream the packet belongs to. When it returns,
  the packets sent are those left by the reads number 0 to \<open>sends - 1\<close>, and every read
  was followed by a send but the one that reported the end of the container in the retry
  loop.
\<close>

theorem every_packet_read_is_sent:
  assumes "FFMPEG_decode_run env = Some (Inr st')"
  shows "sent st' = map (\<lambda>k. snd (av_read_frame env k)) [0..<sends st'] \<and>
         reads st' = (if is_eof st' then Suc (sends st') else sends st')"
  using pump_loop_sent [OF FFMPEG_decode_run_loop [OF assms]]
  by (simp add: pump_init_def)

theorem every_packet_read_is_sent_witness:
  "sent ex_final = [snd (av_read_frame ex_env 0), snd (av_read_frame ex_env 1)] \<and>
   reads ex_final = 3 \<and> sends ex_final = 2"
proof -
  from every_packet_read_is_sent [OF ex_env_run]
  have "sent ex_final = map (\<lambda>k. snd (av_read_frame ex_env k)) [0..<sends ex_final]"
    by blast
  moreover have "[0..<sends ex_final] = [0, 1]"
    by (simp add: ex_final_def upt_rec)
  ultimately show ?thesis by (simp add: ex_final_def)
qed

section \<open>The life of a scratch block\<close>

lemma do_convert_heap_Nil [simp]: "heap (do_convert env st) = [] \<longleftrightarrow> heap st = []"
  by (simp add: do_convert_def split_beta split: option.splits)

lemma alloc_if_changed_live:
  assumes fatal: "\<forall>k n e. av_samples_alloc env k n = Inl e \<longrightarrow> format_av_error e \<noteq> None"
    and pass: "format_av_error (error_result (alloc_if_changed env s)) = None"
    and inv: "length (heap s) = allocs s"
      "pBufferData s = (if allocs s = 0 then None else Some (allocs s - 1))"
  shows "length (heap (alloc_if_changed env s)) = allocs (alloc_if_changed env s) \<and>
         pBufferData (alloc_if_changed env s) =
           (if allocs (alloc_if_changed env s) = 0 then None
            else Some (allocs (alloc_if_changed env s) - 1))"
proof (cases "nb_samples (frame s) = last_nb_samples s")
  case True
  with inv show ?thesis by (simp add: alloc_if_changed_reuse)
next
  case False
  let ?s0 = "s\<lparr>seen := seen s @ [nb_samples (frame s)]\<rparr>"
  from False have eq: "alloc_if_changed env s =
      (do_alloc env ?s0)\<lparr>last_nb_samples := nb_samples (frame s)\<rparr>"
    by (simp add: alloc_if_changed_def Let_def)
  show ?thesis
  proof (cases "av_samples_alloc env (allocs s) (nb_samples (frame s))")
    case (Inl e)
    with eq have "error_result (alloc_if_changed env s) = e"
      by (simp add: do_alloc_def)
    with pass fatal Inl show ?thesis by auto
  next
    case (Inr blk)
    with eq inv show ?thesis by (simp add: do_alloc_def)
  qed
qed

text \<open>
  C3, as the spec has it: every scratch allocation is released exactly once, the previous
  one before the pump allocates again and the last one before the pump returns, so that
  no scratch block is left on the heap when the pump returns. The code has no call that
  releases one: on \<open>ex_env\<close> it allocates twice and returns with both blocks on the heap.
\<close>

theorem scratch_blocks_released_counterexample:
  "map_option (map_sum id heap) (FFMPEG_decode_run ex_env) = Some (Inr [[2, 2, 2, 2], [3, 3]])"
  by (simp add: ex_env_run) (simp add: ex_final_def)

text \<open>
  C3, amended: the pump never releases a scratch allocation. When it returns, every block
  it allocated is still on the heap (with an allocator that fails only with a fatal code,
  the number of blocks on the heap is the number of calls of the allocator), and
  \<^verbatim>\<open>pBufferData\<close> points at the block allocated last, the addresses of the earlier ones
  having been overwritten.
\<close>

theorem scratch_blocks_are_never_released:
  assumes run: "FFMPEG_decode_run env = Some (Inr st')"
    and fatal: "\<forall>k n e. av_samples_alloc env k n = Inl e \<longrightarrow> format_av_error e \<noteq> None"
  shows "length (heap st') = allocs st' \<and>
         pBufferData st' = (if allocs st' = 0 then None else Some (allocs st' - 1))"
proof -
  let ?I = "\<lambda>x::pump. length (heap x) = allocs x \<and>
              pBufferData x = (if allocs x = 0 then None else Some (allocs x - 1))"
  have step: "?I x'" if i: "?I x" and r: "resample env x = Inr (b, x')" for x x' b
  proof -
    from resample_cases [OF r]
    have pass: "format_av_error (error_result (alloc_if_changed env x)) = None"
      and x': "x' = (if b then do_convert env (alloc_if_changed env x)
                     else do_insert (do_convert env (alloc_if_changed env x)))"
      by simp_all
    from alloc_if_changed_live [OF fatal pass] i have "?I (alloc_if_changed env x)" by simp
    with x' show ?thesis by (cases b) auto
  qed
  show ?thesis
  proof (rule pump_loop_rule [OF FFMPEG_decode_run_loop [OF run],
        where I = ?I and M = ?I and F = ?I])
    show "?I ((do_send env (do_read env pump_init))\<lparr>error_result := 0\<rparr>)"
      by (simp add: pump_init_def)
  next
    fix x x' assume "?I x" "retry_loop env x = Some (Inr x')"
    with retry_loop_untouched [of env x x'] show "if is_eof x' then ?I x' else ?I x'" by simp
  next
    fix x x' assume "?I x" "resample env x = Inr (False, x')"
    then show "?I x'" by (rule step)
  next
    fix x x' assume "?I x" "resample env x = Inr (True, x')"
    then show "?I x'" by (rule step)
  next
    fix x assume "?I x" then show "?I x" .
  qed
qed

theorem scratch_blocks_are_never_released_witness:
  "allocs ex_final = 2 \<and> length (heap ex_final) = 2 \<and> pBufferData ex_final = Some 1"
proof -
  have "\<forall>k n e. av_samples_alloc ex_env k n = Inl e \<longrightarrow> format_av_error e \<noteq> None"
    by (simp add: ex_env_def format_av_error_def AVERROR_EAGAIN_def AVERROR_EOF_def)
  from scratch_blocks_are_never_released [OF ex_env_run this]
  have "length (heap ex_final) = allocs ex_final" by blast
  then show ?thesis by (simp add: ex_final_def)
qed

section \<open>The shape of the output buffer\<close>

lemma do_alloc_line_size_dvd:
  assumes even: "\<forall>k n blk. av_samples_alloc env k n = Inr blk \<longrightarrow> d dvd length blk"
    and "d dvd nat (line_size s)"
  shows "d dvd nat (line_size (do_alloc env s))"
  using assms by (auto simp add: do_alloc_def split: sum.splits)

lemma alloc_if_changed_line_size_dvd:
  assumes even: "\<forall>k n blk. av_samples_alloc env k n = Inr blk \<longrightarrow> d dvd length blk"
    and d: "d dvd nat (line_size s)"
  shows "d dvd nat (line_size (alloc_if_changed env s))"
proof -
  let ?s0 = "s\<lparr>seen := seen s @ [nb_samples (frame s)]\<rparr>"
  from d have "d dvd nat (line_size ?s0)" by simp
  from do_alloc_line_size_dvd [OF even this] d show ?thesis
    by (simp add: alloc_if_changed_def Let_def)
qed

lemma buffer_length_dvd:
  assumes run: "FFMPEG_decode_run env = Some (Inr st')"
    and whole: "\<forall>k n blk. av_samples_alloc env k n = Inr blk \<longrightarrow> d dvd length blk"
  shows "d dvd length (buffer st')"
proof -
  let ?I = "\<lambda>x::pump. scratch_ok x \<and> d dvd nat (line_size x) \<and> d dvd length (buffer x)"
  have step: "?I x'" if i: "?I x" and r: "resample env x = Inr (b, x')" for x x' b
  proof -
    let ?c = "do_convert env (alloc_if_changed env x)"
    from i have ok: "scratch_ok ?c"
      by (simp add: scratch_ok_do_convert scratch_ok_alloc_if_changed)
    from i alloc_if_changed_line_size_dvd [OF whole, of x]
    have dl: "d dvd nat (line_size ?c)" by simp
    with length_scratch [OF ok] have ds: "d dvd length (scratch ?c)" by simp
    from resample_cases [OF r] have "x' = ?c \<or> x' = do_insert ?c" by (simp split: if_splits)
    with ok dl ds i show ?thesis by (auto simp add: scratch_ok_do_insert)
  qed
  have "?I st'"
  proof (rule pump_loop_rule [OF FFMPEG_decode_run_loop [OF run],
        where I = ?I and M = ?I and F = ?I])
    show "?I ((do_send env (do_read env pump_init))\<lparr>error_result := 0\<rparr>)"
      by (simp add: pump_init_def scratch_ok_def)
  next
    fix x x' assume i: "?I x" and r: "retry_loop env x = Some (Inr x')"
    from retry_loop_untouched [OF r] i scratch_ok_retry [OF _ r]
    show "if is_eof x' then ?I x' else ?I x'" by simp
  next
    fix x x' assume "?I x" "resample env x = Inr (False, x')"
    then show "?I x'" by (rule step)
  next
    fix x x' assume "?I x" "resample env x = Inr (True, x')"
    then show "?I x'" by (rule step)
  next
    fix x assume "?I x" then show "?I x" .
  qed
  then show ?thesis by simp
qed

text \<open>
  C5, as the spec has it: the length of the output buffer is a multiple of 2 * 1 bytes and
  its bytes are appended in strictly increasing stream order, that is, the buffer is the
  PCM data the resampler wrote, frame after frame. The second part fails, because the
  pump appends the whole scratch line whatever the resampler wrote. On \<open>ex_dup\<close>, a
  well-formed run in which the resampler puts out no sample for the second frame, the
  four bytes of the first frame stand twice in the output. On \<open>ex_padded\<close>, with the
  allocator of \<^verbatim>\<open>align = 0\<close>, the resampler writes 10 bytes of PCM data and the output
  has 192 bytes.
\<close>

theorem stream_order_counterexample:
  "decodes ex_dup 2 4 \<and>
   concat (converted ex_dup 0 (frames ex_dup 0 4)) = [1, 1, 1, 1, 3, 3] \<and>
   FFMPEG_decode ex_dup = Some (Inr [1, 1, 1, 1, 1, 1, 1, 1, 3, 3]) \<and>
   decodes ex_padded 2 4 \<and> padded_allocator ex_padded \<and>
   length (concat (converted ex_padded 0 (frames ex_padded 0 4))) = 10 \<and>
   map_option (map_sum id length) (FFMPEG_decode ex_padded) = Some (Inr 192)"
proof -
  have "concat (converted ex_dup 0 (frames ex_dup 0 4)) = [1, 1, 1, 1, 3, 3]"
    by code_simp
  moreover have "FFMPEG_decode ex_dup = Some (Inr [1, 1, 1, 1, 1, 1, 1, 1, 3, 3])"
    by code_simp
  moreover have "length (concat (converted ex_padded 0 (frames ex_padded 0 4))) = 10"
    by code_simp
  moreover have "map_option (map_sum id length) (FFMPEG_decode ex_padded) = Some (Inr 192)"
    by code_simp
  ultimately show ?thesis
    using ex_dup_decodes ex_padded_decodes ex_padded_allocator by simp
qed

text \<open>
  C5, amended: with an allocator that hands out buffers of whole samples, the length of
  the output buffer is a multiple of the target sample width times the number of target
  channels (2 * 1) whenever the pump returns. On a well-formed run the pump returns, and
  its output is the concatenation, in the order in which the decoder delivered the
  frames, of one chunk for each frame: the scratch block after the conversion of that
  frame, which begins with the bytes the resampler wrote for the frame (as far as they
  fit) and goes on with what the block held before, the bytes of a fresh block or the
  chunk of the frame before. Only up to the bytes the resampler wrote is a chunk PCM data
  of the stream.
\<close>

theorem output_is_the_chunks_of_the_frames:
  assumes whole: "\<forall>k n blk. av_samples_alloc env k n = Inr blk \<longrightarrow>
                    target_sample_width * target_channels dvd length blk"
  shows "(\<forall>st'. FFMPEG_decode_run env = Some (Inr st') \<longrightarrow>
            target_sample_width * target_channels dvd length (buffer st')) \<and>
         (decodes env K R \<and> allocates env \<longrightarrow>
            (\<exists>b. FFMPEG_decode env = Some (Inr b) \<and>
                 target_sample_width * target_channels dvd length b \<and>
                 b = concat (chunks env 0 0 0 [] (frames env 0 R)) \<and>
                 length (chunks env 0 0 0 [] (frames env 0 R)) = length (frames env 0 R) \<and>
                 (\<forall>n < length (frames env 0 R).
                    take (length (converted env 0 (frames env 0 R) ! n))
                      (chunks env 0 0 0 [] (frames env 0 R) ! n) =
                    take (length (chunks env 0 0 0 [] (frames env 0 R) ! n))
                      (converted env 0 (frames env 0 R) ! n))))"
proof (intro conjI allI impI)
  fix st' assume "FFMPEG_decode_run env = Some (Inr st')"
  from buffer_length_dvd [OF this whole]
  show "target_sample_width * target_channels dvd length (buffer st')" .
next
  assume "decodes env K R \<and> allocates env"
  then have D: "decodes env K R" and A: "allocates env" by simp_all
  let ?fs = "frames env 0 R"
  let ?cs = "chunks env 0 0 0 [] ?fs"
  from FFMPEG_decode_run_chunks [OF D A] obtain s' where
    run: "FFMPEG_decode_run env = Some (Inr s')" and b: "buffer s' = concat ?cs" by blast
  from buffer_length_dvd [OF run whole] b
  have dvd: "target_sample_width * target_channels dvd length (concat ?cs)" by simp
  from chunks_converted [OF A frames_positive [OF D, of 0],
      where i = 0 and a = 0 and prev = 0 and cur = "[]"]
  have len: "length ?cs = length ?fs"
    and each: "\<forall>n < length ?fs. \<exists>blk. ?cs ! n = overwrite (converted env 0 ?fs ! n) blk"
    by simp_all
  have tie: "take (length (converted env 0 ?fs ! n)) (?cs ! n) =
             take (length (?cs ! n)) (converted env 0 ?fs ! n)" if "n < length ?fs" for n
  proof -
    from each that obtain blk where "?cs ! n = overwrite (converted env 0 ?fs ! n) blk" by blast
    then show ?thesis by (simp only: take_overwrite)
  qed
  from run b have "FFMPEG_decode env = Some (Inr (concat ?cs))"
    by (simp add: FFMPEG_decode_def)
  with dvd len tie
  show "\<exists>b. FFMPEG_decode env = Some (Inr b) \<and>
                 target_sample_width * target_channels dvd length b \<and>
                 b = concat ?cs \<and> length ?cs = length ?fs \<and>
                 (\<forall>n < length ?fs.
                    take (length (converted env 0 ?fs ! n)) (?cs ! n) =
                    take (length (?cs ! n)) (converted env 0 ?fs ! n))"
    by blast
qed

theorem output_is_the_chunks_of_the_frames_witness:
  "decodes ex_dup 2 4 \<and> allocates ex_dup \<and>
   map nb_samples (frames ex_dup 0 4) = [2, 2, 1] \<and>
   converted ex_dup 0 (frames ex_dup 0 4) = [[1, 1, 1, 1], [], [3, 3]] \<and>
   chunks ex_dup 0 0 0 [] (frames ex_dup 0 4) = [[1, 1, 1, 1], [1, 1, 1, 1], [3, 3]] \<and>
   FFMPEG_decode ex_dup = Some (Inr (concat (chunks ex_dup 0 0 0 [] (frames ex_dup 0 4)))) \<and>
   target_sample_width * target_channels dvd
     length (concat (chunks ex_dup 0 0 0 [] (frames ex_dup 0 4))) \<and>
   take (length (converted ex_dup 0 (frames ex_dup 0 4) ! 0))
     (chunks ex_dup 0 0 0 [] (frames ex_dup 0 4) ! 0) =
   take (length (chunks ex_dup 0 0 0 [] (frames ex_dup 0 4) ! 0))
     (converted ex_dup 0 (frames ex_dup 0 4) ! 0) \<and>
   (\<exists>st'. FFMPEG_decode_run ex_dup = Some (Inr st') \<and>
          target_sample_width * target_channels dvd length (buffer st'))"
proof -
  have whole: "\<forall>k n blk. av_samples_alloc ex_dup k n = Inr blk \<longrightarrow>
          target_sample_width * target_channels dvd length blk"
    by (auto simp add: ex_dup_def ex_env_def target_sample_width_def target_channels_def)
  have A: "allocates ex_dup"
    by (simp add: allocates_def ex_dup_def ex_env_def)
  have vals: "map nb_samples (frames ex_dup 0 4) = [2, 2, 1]"
    "converted ex_dup 0 (frames ex_dup 0 4) = [[1, 1, 1, 1], [], [3, 3]]"
    "chunks ex_dup 0 0 0 [] (frames ex_dup 0 4) = [[1, 1, 1, 1], [1, 1, 1, 1], [3, 3]]"
    by code_simp+
  from vals(1) have n: "0 < length (frames ex_dup 0 4)"
    by (metis length_greater_0_conv list.simps(3) map_is_Nil_conv)
  note inst = output_is_the_chunks_of_the_frames [OF whole, of 2 4]
  from inst ex_dup_decodes A
  have total: "\<exists>b. FFMPEG_decode ex_dup = Some (Inr b) \<and>
          target_sample_width * target_channels dvd length b \<and>
          b = concat (chunks ex_dup 0 0 0 [] (frames ex_dup 0 4))"
    by blast
  from inst ex_dup_decodes A n
  have tie: "take (length (converted ex_dup 0 (frames ex_dup 0 4) ! 0))
       (chunks ex_dup 0 0 0 [] (frames ex_dup 0 4) ! 0) =
     take (length (chunks ex_dup 0 0 0 [] (frames ex_dup 0 4) ! 0))
       (converted ex_dup 0 (frames ex_dup 0 4) ! 0)"
    by blast
  from total have dec: "FFMPEG_decode ex_dup =
        Some (Inr (concat (chunks ex_dup 0 0 0 [] (frames ex_dup 0 4))))"
    and dvd: "target_sample_width * target_channels dvd
        length (concat (chunks ex_dup 0 0 0 [] (frames ex_dup 0 4)))"
    by auto
  from FFMPEG_decode_run_chunks [OF ex_dup_decodes A]
  obtain st' where run: "FFMPEG_decode_run ex_dup = Some (Inr st')"
    by blast
  with inst have "target_sample_width * target_channels dvd length (buffer st')"
    by blast
  with run have part: "\<exists>st'. FFMPEG_decode_run ex_dup = Some (Inr st') \<and>
          target_sample_width * target_channels dvd length (buffer st')"
    by blast
  from ex_dup_decodes A vals dec dvd tie part show ?thesis
    by (intro conjI)
qed

section \<open>Samples received and samples appended\<close>




section \<open>How many bytes one turn appends\<close>

lemma alloc_if_changed_swr_convert [simp]:
  "alloc_if_changed (env\<lparr>swr_convert := c\<rparr>) s = alloc_if_changed env s"
  by (simp add: alloc_if_changed_def do_alloc_def Let_def)

lemma alloc_if_changed_line_size:
  "line_size (alloc_if_changed env s) =
     (if nb_samples (frame s) \<noteq> last_nb_samples s then
        (case av_samples_alloc env (allocs s) (nb_samples (frame s)) of
           Inl e \<Rightarrow> line_size s | Inr blk \<Rightarrow> int (length blk))
      else line_size s)"
  by (simp add: alloc_if_changed_def do_alloc_def Let_def split: sum.splits)

lemma resample_inserts_line_size:
  assumes ok: "scratch_ok s" and r: "resample env s = Inr (False, s')"
  shows "buffer s' = buffer s @ scratch s' \<and>
         length (scratch s') = nat (line_size (alloc_if_changed env s)) \<and>
         line_size s' = line_size (alloc_if_changed env s)"
proof -
  let ?c = "do_convert env (alloc_if_changed env s)"
  from resample_cases [OF r] have s': "s' = do_insert ?c" by simp
  from ok have okc: "scratch_ok ?c"
    by (simp add: scratch_ok_do_convert scratch_ok_alloc_if_changed)
  have "scratch s' = scratch ?c" unfolding s' by (simp add: scratch_def split: option.splits)
  with length_scratch [OF okc] s' show ?thesis by simp
qed

lemma alloc_if_changed_padded:
  assumes padded: "padded_allocator env"
    and pass: "format_av_error (error_result (alloc_if_changed env s)) = None"
    and ls: "line_size s = padded_line_size (last_nb_samples s)"
  shows "line_size (alloc_if_changed env s) = padded_line_size (nb_samples (frame s))"
proof (cases "nb_samples (frame s) = last_nb_samples s")
  case True
  with ls show ?thesis by (simp add: alloc_if_changed_reuse)
next
  case False
  let ?s0 = "s\<lparr>seen := seen s @ [nb_samples (frame s)]\<rparr>"
  from False have eq: "alloc_if_changed env s =
      (do_alloc env ?s0)\<lparr>last_nb_samples := nb_samples (frame s)\<rparr>"
    by (simp add: alloc_if_changed_def Let_def)
  from padded have spec: "case av_samples_alloc env (allocs s) (nb_samples (frame s)) of
      Inl e \<Rightarrow> e < 0 \<and> e \<noteq> AVERROR_EAGAIN \<and> e \<noteq> AVERROR_EOF
    | Inr blk \<Rightarrow> 0 < nb_samples (frame s) \<and>
        int (length blk) = padded_line_size (nb_samples (frame s))"
    unfolding padded_allocator_def by blast
  show ?thesis
  proof (cases "av_samples_alloc env (allocs s) (nb_samples (frame s))")
    case (Inl e)
    with eq have "error_result (alloc_if_changed env s) = e"
      by (simp add: do_alloc_def)
    with pass spec Inl show ?thesis by (simp add: format_av_error_def)
  next
    case (Inr blk)
    with eq spec show ?thesis by (simp add: do_alloc_def)
  qed
qed

text \<open>
  C10, as written: a turn of the pump that appends to the output buffer appends the line
  size of the most recent allocation, which the claim takes to be 2 bytes times the
  sample count of that allocation. With the allocator of \<^verbatim>\<open>align = 0\<close> the line size is
  not that figure: in the first turn on \<open>ex_padded\<close> the frame has 2 samples, the claim's
  figure is 4 bytes, and 64 bytes are appended.
\<close>

theorem line_size_figure_counterexample:
  "padded_allocator ex_padded \<and> nb_samples (frame ex_padded_first_frame) = 2 \<and>
   buffer ex_padded_first_frame = [] \<and>
   resample ex_padded ex_padded_first_frame = Inr (False, ex_padded_first_insert) \<and>
   length (buffer ex_padded_first_insert) = 64"
proof -
  have "padded_allocator ex_padded"
    by (rule ex_padded_allocator)
  moreover have "nb_samples (frame ex_padded_first_frame) = 2"
    "buffer ex_padded_first_frame = []" "length (buffer ex_padded_first_insert) = 64"
    by code_simp+
  ultimately show ?thesis using ex_padded_turn by simp
qed

text \<open>
  C10, amended: a turn of the pump that reaches line 123 appends exactly \<^verbatim>\<open>line_size\<close>
  bytes, and \<^verbatim>\<open>line_size\<close> is what the most recent allocation set it to: the size of the
  block allocated in this turn when the sample count changed, the value it had before
  otherwise. The number of bytes does not depend on what \<^verbatim>\<open>swr_convert\<close> returns: with any
  other resampler in its place the same turn, if it reaches line 123, appends as many
  bytes. The line size is the one the allocator computes: with the allocator of
  \<^verbatim>\<open>align = 0\<close>, 2 * 1 bytes times the sample count of the allocation rounded up to a
  multiple of 32.
\<close>

theorem inserted_bytes_are_the_line_size:
  assumes ok: "scratch_ok st" and r: "resample env st = Inr (False, st')"
  shows "length (buffer st') = length (buffer st) + nat (line_size st') \<and>
         line_size st' =
           (if nb_samples (frame st) \<noteq> last_nb_samples st then
              (case av_samples_alloc env (allocs st) (nb_samples (frame st)) of
                 Inl e \<Rightarrow> line_size st | Inr blk \<Rightarrow> int (length blk))
            else line_size st) \<and>
         (\<forall>c st''. resample (env\<lparr>swr_convert := c\<rparr>) st = Inr (False, st'') \<longrightarrow>
                   length (buffer st'') = length (buffer st')) \<and>
         (padded_allocator env \<and> line_size st = padded_line_size (last_nb_samples st) \<longrightarrow>
          line_size st' = padded_line_size (nb_samples (frame st)))"
proof -
  note here = resample_inserts_line_size [OF ok r]
  have other: "length (buffer st'') = length (buffer st')"
    if "resample (env\<lparr>swr_convert := c\<rparr>) st = Inr (False, st'')" for c st''
    using resample_inserts_line_size [OF ok that] here by simp
  have padded: "line_size st' = padded_line_size (nb_samples (frame st))"
    if "padded_allocator env" "line_size st = padded_line_size (last_nb_samples st)"
  proof -
    from resample_cases [OF r]
    have "format_av_error (error_result (alloc_if_changed env st)) = None" by simp
    from alloc_if_changed_padded [OF that(1) this that(2)] here show ?thesis by simp
  qed
  from here have "length (buffer st') = length (buffer st) + nat (line_size st')" by simp
  moreover from here have "line_size st' =
           (if nb_samples (frame st) \<noteq> last_nb_samples st then
              (case av_samples_alloc env (allocs st) (nb_samples (frame st)) of
                 Inl e \<Rightarrow> line_size st | Inr blk \<Rightarrow> int (length blk))
            else line_size st)"
    by (simp only: alloc_if_changed_line_size)
  ultimately show ?thesis using other padded by blast
qed

theorem inserted_bytes_are_the_line_size_witness:
  "nb_samples (frame ex_first_frame) = 2 \<and>
   fst (swr_convert ex_env 0 2 (frame ex_first_frame)) = 2 \<and>
   fst (ex_short_convert 0 2 (frame ex_first_frame)) = 1 \<and>
   line_size ex_first_insert = 4 \<and>
   length (buffer ex_first_insert) = 4 \<and> length (buffer ex_short_insert) = 4 \<and>
   padded_allocator ex_padded \<and> nb_samples (frame ex_padded_first_frame) = 2 \<and>
   padded_line_size 2 = 64 \<and> line_size ex_padded_first_insert = 64 \<and>
   length (buffer ex_padded_first_insert) = 64"
proof -
  have d: "line_size ex_first_insert = 4" "buffer ex_first_frame = []"
    "nb_samples (frame ex_first_frame) = 2"
    by code_simp+
  from inserted_bytes_are_the_line_size [OF ex_first_frame_ok ex_first_turn]
  have a: "length (buffer ex_first_insert) =
        length (buffer ex_first_frame) + nat (line_size ex_first_insert)"
    and b: "\<forall>c st''. resample (ex_env\<lparr>swr_convert := c\<rparr>) ex_first_frame = Inr (False, st'') \<longrightarrow>
          length (buffer st'') = length (buffer ex_first_insert)"
    by blast+
  from b ex_short_turn have c: "length (buffer ex_short_insert) = length (buffer ex_first_insert)"
    by blast
  have e: "fst (swr_convert ex_env 0 2 (frame ex_first_frame)) = 2"
    "fst (ex_short_convert 0 2 (frame ex_first_frame)) = 1"
    by (simp_all add: ex_env_def ex_short_convert_def)
  have p: "padded_allocator ex_padded"
    by (rule ex_padded_allocator)
  have q: "line_size ex_padded_first_frame = padded_line_size (last_nb_samples ex_padded_first_frame)"
    "nb_samples (frame ex_padded_first_frame) = 2" "buffer ex_padded_first_frame = []"
    "padded_line_size 2 = 64"
    by code_simp+
  from inserted_bytes_are_the_line_size [OF ex_padded_first_frame_ok ex_padded_turn] p q
  have x: "line_size ex_padded_first_insert = padded_line_size 2"
    and y: "length (buffer ex_padded_first_insert) =
        length (buffer ex_padded_first_frame) + nat (line_size ex_padded_first_insert)"
    by auto
  from a c d e p q x y show ?thesis by simp
qed

section \<open>The retry loop ends\<close>

lemma retry_loop_returns:
  assumes eof: "fst (av_read_frame env k) = AVERROR_EOF"
  shows "reads s \<le> k \<Longrightarrow> \<exists>r. retry_loop env s = Some r"
proof (induction "2 * (k - reads s) + (if error_result s = AVERROR_EAGAIN then 0 else 1)"
    arbitrary: s rule: less_induct)
  case less
  show ?case
  proof (cases "feed env s")
    case (Inl e)
    then show ?thesis by (subst retry_loop.simps) simp
  next
    case (Inr bs)
    obtain b s1 where bs: "bs = (b, s1)" by (cases bs)
    show ?thesis
    proof (cases b)
      case True
      with Inr bs show ?thesis by (subst retry_loop.simps) simp
    next
      case False
      let ?s2 = "do_receive env s1"
      show ?thesis
      proof (cases "error_result ?s2 = AVERROR_EAGAIN")
        case fin: False
        with Inr bs False show ?thesis by (subst retry_loop.simps) (simp add: Let_def)
      next
        case again: True
        from Inr bs False have f: "feed env s = Inr (False, s1)" by simp
        from feed_cases [OF f]
        have "(error_result s \<noteq> AVERROR_EAGAIN \<and> s1 = s) \<or>
              (error_result s = AVERROR_EAGAIN \<and> s1 = do_send env (do_read env s) \<and>
               fst (av_read_frame env (reads s)) \<noteq> AVERROR_EOF)" by auto
        then have smaller: "2 * (k - reads ?s2) + (if error_result ?s2 = AVERROR_EAGAIN then 0 else 1)
            < 2 * (k - reads s) + (if error_result s = AVERROR_EAGAIN then 0 else 1) \<and>
            reads ?s2 \<le> k"
        proof
          assume "error_result s \<noteq> AVERROR_EAGAIN \<and> s1 = s"
          with again less.prems show ?thesis by simp
        next
          assume a: "error_result s = AVERROR_EAGAIN \<and> s1 = do_send env (do_read env s) \<and>
               fst (av_read_frame env (reads s)) \<noteq> AVERROR_EOF"
          with eof have "reads s \<noteq> k" by auto
          with less.prems have "reads s < k" by simp
          with a again show ?thesis by simp
        qed
        then have "\<exists>r. retry_loop env ?s2 = Some r"
          using less.hyps [of ?s2] by blast
        moreover from f again have "retry_loop env s = retry_loop env ?s2"
          by (subst retry_loop.simps) (simp add: Let_def)
        ultimately show ?thesis by simp
      qed
    qed
  qed
qed

lemma starved_retry_loop_ends_at_eof:
  assumes run: "retry_loop env s = Some (Inr s')"
    and starved: "\<forall>j. fst (avcodec_receive_frame env j) = AVERROR_EAGAIN"
  shows "is_eof s'"
proof -
  have "is_eof s' \<or> False"
  proof (rule retry_loop_rule [OF run, where I = "\<lambda>x. True" and M = "\<lambda>x. True"])
    fix x x' assume "feed env x = Inr (True, x')"
    with feed_cases [of env x True x'] show "is_eof x'" by auto
  next
    fix x assume "error_result (do_receive env x) \<noteq> AVERROR_EAGAIN"
    with starved show False by simp
  qed simp_all
  then show ?thesis by simp
qed

text \<open>
  C4: the \<^verbatim>\<open>do ... while\<close> loop of lines 71-92 returns (or exits) on every input, an input
  being a container that ends: the reader reports the end at some call \<open>k\<close> that is
  still to come. On \<^verbatim>\<open>EAGAIN\<close> the loop reads, sends and asks the decoder again; when the
  reader reports the end during the retry, the loop is left with \<^verbatim>\<open>is_eof\<close> set, nothing
  is appended and the pump returns at once. In particular, with a decoder that only ever
  answers \<^verbatim>\<open>EAGAIN\<close> the whole pump ends: it returns the empty buffer, unless a read or a
  send failed for good before the end of the container.
\<close>

theorem retry_loop_terminates:
  assumes eof: "fst (av_read_frame env k) = AVERROR_EOF"
  shows "(reads st \<le> k \<longrightarrow>
           (\<exists>r. retry_loop env st = Some r \<and>
                (\<forall>st'. r = Inr st' \<and> is_eof st' \<longrightarrow>
                   buffer st' = buffer st \<and> inserted st' = inserted st \<and>
                   (0 \<le> error_result st \<and> \<not> is_eof st \<longrightarrow>
                      pump_loop env st = Some (Inr st'))))) \<and>
         (1 \<le> k \<and> (\<forall>j. fst (avcodec_receive_frame env j) = AVERROR_EAGAIN) \<longrightarrow>
           (\<exists>r. FFMPEG_decode env = Some r \<and> (r = Inr [] \<or> (\<exists>e. r = Inl e))))"
proof (intro conjI impI)
  assume le: "reads st \<le> k"
  from retry_loop_returns [OF eof le] obtain r where r: "retry_loop env st = Some r" ..
  have "buffer st' = buffer st \<and> inserted st' = inserted st \<and>
        (0 \<le> error_result st \<and> \<not> is_eof st \<longrightarrow> pump_loop env st = Some (Inr st'))"
    if "r = Inr st' \<and> is_eof st'" for st'
    using that r retry_loop_untouched [of env st st'] pump_loop_at_eof [of env st st']
    by simp
  with r show "\<exists>r. retry_loop env st = Some r \<and>
                (\<forall>st'. r = Inr st' \<and> is_eof st' \<longrightarrow>
                   buffer st' = buffer st \<and> inserted st' = inserted st \<and>
                   (0 \<le> error_result st \<and> \<not> is_eof st \<longrightarrow>
                      pump_loop env st = Some (Inr st')))"
    by blast
next
  assume "1 \<le> k \<and> (\<forall>j. fst (avcodec_receive_frame env j) = AVERROR_EAGAIN)"
  then have k: "1 \<le> k" and starved: "\<forall>j. fst (avcodec_receive_frame env j) = AVERROR_EAGAIN"
    by simp_all
  let ?s1 = "do_read env pump_init"
  let ?s2 = "do_send env ?s1"
  let ?s = "?s2\<lparr>error_result := 0\<rparr>"
  show "\<exists>r. FFMPEG_decode env = Some r \<and> (r = Inr [] \<or> (\<exists>e. r = Inl e))"
  proof (cases "format_av_error (error_result ?s1) = None \<and> format_av_error (error_result ?s2) = None")
    case False
    then show ?thesis
      by (auto simp add: FFMPEG_decode_def FFMPEG_decode_run_def Let_def split: option.splits)
  next
    case True
    then have run: "FFMPEG_decode_run env = pump_loop env ?s"
      by (simp add: FFMPEG_decode_run_def Let_def)
    have s: "reads ?s \<le> k" "0 \<le> error_result ?s" "\<not> is_eof ?s" "buffer ?s = []"
      using k by (simp_all add: pump_init_def)
    from retry_loop_returns [OF eof s(1)] obtain r where r: "retry_loop env ?s = Some r" ..
    show ?thesis
    proof (cases r)
      case (Inl e)
      with r s have "pump_loop env ?s = Some (Inl e)" by (intro pump_loop_exit) simp_all
      with run show ?thesis by (simp add: FFMPEG_decode_def)
    next
      case (Inr s')
      with r have r': "retry_loop env ?s = Some (Inr s')" by simp
      from starved_retry_loop_ends_at_eof [OF r' starved] have e: "is_eof s'" .
      from pump_loop_at_eof [OF r' e s(2,3)] have "pump_loop env ?s = Some (Inr s')" .
      moreover from retry_loop_untouched [OF r'] s(4) have "buffer s' = []" by simp
      ultimately show ?thesis using run by (simp add: FFMPEG_decode_def)
    qed
  qed
qed

theorem retry_loop_terminates_witness:
  "fst (av_read_frame ex_starved 2) = AVERROR_EOF \<and> reads ex_starved_start = 1 \<and>
   retry_loop ex_starved ex_starved_start = Some (Inr ex_starved_final) \<and>
   is_eof ex_starved_final \<and> buffer ex_starved_final = buffer ex_starved_start \<and>
   pump_loop ex_starved ex_starved_start = Some (Inr ex_starved_final) \<and>
   FFMPEG_decode ex_starved = Some (Inr [])"
proof -
  have eof: "fst (av_read_frame ex_starved 2) = AVERROR_EOF"
    by (simp add: ex_starved_def ex_env_def)
  have starved: "\<forall>j. fst (avcodec_receive_frame ex_starved j) = AVERROR_EAGAIN"
    by (simp add: ex_starved_def)
  have start: "reads ex_starved_start = 1" "0 \<le> error_result ex_starved_start"
    "\<not> is_eof ex_starved_start"
    by (simp_all add: ex_starved_start_def pump_init_def)
  have fin: "is_eof ex_starved_final"
    by (simp add: ex_starved_final_def)
  have k: "(1::nat) \<le> 2" by simp
  from retry_loop_terminates [OF eof, of ex_starved_start] start k starved
  have "\<exists>r. retry_loop ex_starved ex_starved_start = Some r \<and>
          (\<forall>st'. r = Inr st' \<and> is_eof st' \<longrightarrow>
             buffer st' = buffer ex_starved_start \<and> inserted st' = inserted ex_starved_start \<and>
             (0 \<le> error_result ex_starved_start \<and> \<not> is_eof ex_starved_start \<longrightarrow>
                pump_loop ex_starved ex_starved_start = Some (Inr st')))"
    and total: "\<exists>r. FFMPEG_decode ex_starved = Some r \<and> (r = Inr [] \<or> (\<exists>e. r = Inl e))"
    by simp_all
  with ex_starved_retry fin start
  have "buffer ex_starved_final = buffer ex_starved_start"
    and "pump_loop ex_starved ex_starved_start = Some (Inr ex_starved_final)"
    by auto
  with eof start fin ex_starved_retry ex_starved_run total show ?thesis by simp
qed

section \<open>Which results end the process\<close>

lemma format_av_error_policy:
  "format_av_error ret = Some e \<longleftrightarrow>
     e = ExitAv ret \<and> ret < 0 \<and> ret \<noteq> AVERROR_EAGAIN \<and> ret \<noteq> AVERROR_EOF"
  by (auto simp add: format_av_error_def)

lemma dropped_results:
  "read_audio_into_buffer (lib\<lparr>swr_init := r\<rparr>) env = read_audio_into_buffer lib env"
  "read_audio_into_buffer (lib\<lparr>avcodec_parameters_to_context := r\<rparr>) env =
     read_audio_into_buffer lib env"
  by (simp_all add: read_audio_into_buffer_def)

text \<open>
  C6 says that every negative result of a step of the pipeline other than \<^verbatim>\<open>EAGAIN\<close> and
  \<^verbatim>\<open>EOF\<close> ends the process at once. That is what \<^verbatim>\<open>format_av_error\<close> does with a result
  it is given (\<open>format_av_error_policy\<close>), but the results of \<^verbatim>\<open>swr_init\<close> and of
  \<^verbatim>\<open>avcodec_parameters_to_context\<close> are never given to it (\<open>dropped_results\<close>). Here the
  resampler rejects the stream with -22, a result that \<^verbatim>\<open>format_av_error\<close> would end the
  process on, and the setup routine goes on to decode and returns a \<open>SoundData\<close>.
\<close>

theorem swr_init_failure_is_not_reported:
  "swr_init ex_lib_swr_init_fails = - 22 \<and>
   format_av_error (swr_init ex_lib_swr_init_fails) = Some (ExitAv (- 22)) \<and>
   read_audio_into_buffer ex_lib_swr_init_fails ex_starved =
     Some (Inr \<lparr>sd_buffer = [], sample_rate = 48000, channels = 1\<rparr>)"
  by (simp add: read_audio_into_buffer_def checked_def format_av_error_ptr_def
      format_av_error_def ex_lib_swr_init_fails_def ex_lib_def ex_starved_run
      AVERROR_EAGAIN_def AVERROR_EOF_def)

end
